theory Spec2Isabelle
  imports Complex_Main
begin

section \<open>Python values, exceptions and string helpers\<close>

text \<open>
  The scheduler test harness is Python 2 code. Every exception the modelled code can raise is
  a value of \<open>error\<close>; a function that may raise returns \<open>error + 'a\<close> with \<open>Inl\<close> for
  the exception. \<open>StringException\<close> is the Python 2 string exception of
  \<^verbatim>\<open>raise "Mismatched data and headers"\<close>.
\<close>

datatype error =
    AssertionError
  | StringException string
  | ValueError
  | KeyError
  | TypeError
  | IndexError
  | AttributeError
  | UnboundLocalError

text \<open>The two kinds of value an attribute lookup on a \<open>LineData\<close> can give.\<close>

datatype pyval = PyInt int | PyStr string

text \<open>
  The characters \<^verbatim>\<open>\s\<close> and \<^verbatim>\<open>string.split\<close> treat as white space (space, tab, newline,
  carriage return, vertical tab, form feed), and the characters \<^verbatim>\<open>\d\<close> matches.
\<close>

definition isspace :: "char \<Rightarrow> bool" where
  "isspace c = (c \<in> set [CHR '' '', CHR 0x09, CHR 0x0A, CHR 0x0D, CHR 0x0B, CHR 0x0C])"

definition isdigit :: "char \<Rightarrow> bool" where
  "isdigit c = (c \<in> set ''0123456789'')"

text \<open>
  \<^verbatim>\<open>string.split(s)\<close> with no separator: the maximal runs of non-white-space characters, in
  order. \<open>split_aux cur s\<close> carries the token being read.
\<close>

fun split_aux :: "string \<Rightarrow> string \<Rightarrow> string list" where
  "split_aux cur [] = (if cur = [] then [] else [cur])"
| "split_aux cur (c # cs) =
     (if isspace c then (if cur = [] then split_aux [] cs else cur # split_aux [] cs)
      else split_aux (cur @ [c]) cs)"

definition string_split :: "string \<Rightarrow> string list" where
  "string_split s = split_aux [] s"

text \<open>
  \<^verbatim>\<open>notblank = re.compile('\s*\d+')\<close> and \<^verbatim>\<open>notblank.match(line)\<close>: the match is anchored at
  the start of the line. White space and digits are disjoint, so the pattern matches exactly
  when the first character after the leading white space is a digit.
\<close>

definition notblank_match :: "string \<Rightarrow> bool" where
  "notblank_match l = (case dropWhile isspace l of [] \<Rightarrow> False | c # _ \<Rightarrow> isdigit c)"

section \<open>parse\_sched: records and the snapshot parser\<close>

text \<open>
  \<^verbatim>\<open>class LineData\<close>: one line of a table, its only field the dictionary \<open>data\<close> from header
  name to the raw string of the column.
\<close>

record LineData =
  data :: "string \<rightharpoonup> string"

text \<open>
  \<^verbatim>\<open>LineData.__init__(headers, cur_data)\<close> for two lists (the call \<^verbatim>\<open>LineData()\<close> with no
  argument gives \<open>LineData_empty\<close>). The loop stores \<^verbatim>\<open>headers[i] -> cur_data[i]\<close> for
  ascending \<open>i\<close>, so a repeated header name keeps the last column.
\<close>

definition LineData_empty :: LineData where
  "LineData_empty = \<lparr> data = Map.empty \<rparr>"

definition LineData_init :: "string list \<Rightarrow> string list \<Rightarrow> error + LineData" where
  "LineData_init headers cur_data =
     (if length headers \<noteq> length cur_data
      then Inl (StringException ''Mismatched data and headers'')
      else Inr \<lparr> data = fold (\<lambda>i d. d(headers ! i \<mapsto> cur_data ! i))
                              [0 ..< length headers] Map.empty \<rparr>)"

text \<open>
  \<^verbatim>\<open>LineData.__getattr__(attr)\<close>, the hook Python calls for \<^verbatim>\<open>record.attr\<close> when \<open>attr\<close> is no
  ordinary attribute of the object.
\<close>

definition LineData_getattr :: "LineData \<Rightarrow> string \<Rightarrow> pyval" where
  "LineData_getattr self attr =
     (if attr \<in> dom (data self) then PyStr (the (data self attr)) else PyInt 0)"

text \<open>The number of fields of a record: \<^verbatim>\<open>len(self.data)\<close>.\<close>

definition num_fields :: "LineData \<Rightarrow> nat" where
  "num_fields r = card (dom (data r))"

text \<open>\<^verbatim>\<open>class SchedData\<close>; \<open>vcpulines\<close> and \<open>global_data\<close> default to \<^verbatim>\<open>None\<close>.\<close>

record SchedData =
  vcpu_list :: "LineData list"
  pcpu_list :: "LineData list"
  vcpulines :: "string list option"
  global_data :: "LineData option"

text \<open>
  The open file is the list of the lines \<^verbatim>\<open>readline()\<close> has still to return;
  at the end of the file \<^verbatim>\<open>readline()\<close> returns the empty string.
\<close>

fun readline :: "string list \<Rightarrow> string \<times> string list" where
  "readline [] = ([], [])"
| "readline (l # ls) = (l, ls)"

text \<open>\<^verbatim>\<open>while notblank.match(infile.readline()): pass\<close>: the first line that does not match is consumed too.\<close>

fun skip_cells :: "string list \<Rightarrow> string list" where
  "skip_cells [] = []"
| "skip_cells (l # ls) = (if notblank_match l then skip_cells ls else ls)"

text \<open>
  The pcpu loop. The argument list is the current line followed by the rest of the file (empty
  when \<^verbatim>\<open>curline\<close> is the empty string of the end of the file). \<open>LineData\<close> is built outside
  any \<^verbatim>\<open>try\<close>, so its exception leaves the loop and \<open>load_data\<close>.
\<close>

fun pcpu_loop :: "string list \<Rightarrow> string list \<Rightarrow> LineData list
                    \<Rightarrow> error + (LineData list \<times> string list)" where
  "pcpu_loop pcpu_headers [] pcpus = Inr (pcpus, [])"
| "pcpu_loop pcpu_headers (curline # rest) pcpus =
     (if notblank_match curline then
        (case LineData_init pcpu_headers (string_split curline) of
           Inl e \<Rightarrow> Inl e
         | Inr item \<Rightarrow> pcpu_loop pcpu_headers rest (pcpus @ [item]))
      else Inr (pcpus, rest))"

text \<open>
  The vcpu loop: the line is appended to \<open>vcpulines\<close> first, then the record is built inside
  \<^verbatim>\<open>try\<close>; the bare \<^verbatim>\<open>except\<close> prints a diagnostic and the loop goes on with the next line.
\<close>

fun vcpu_loop :: "string list \<Rightarrow> string list \<Rightarrow> LineData list \<times> string list
                    \<Rightarrow> LineData list \<times> string list" where
  "vcpu_loop vcpu_headers [] acc = acc"
| "vcpu_loop vcpu_headers (curline # rest) (vcpus, vlines) =
     (if notblank_match curline then
        (case LineData_init vcpu_headers (string_split curline) of
           Inl e \<Rightarrow> vcpu_loop vcpu_headers rest (vcpus, vlines @ [curline])
         | Inr item \<Rightarrow> vcpu_loop vcpu_headers rest (vcpus @ [item], vlines @ [curline]))
      else (vcpus, vlines))"

text \<open>
  The \<^verbatim>\<open>if verbose:\<close> block of \<open>load_data\<close>: the global record, the blank line, the cell
  section and the pcpu table. It returns the global record, the pcpu records and the file
  position where the vcpu table starts.
\<close>

definition verbose_sections :: "string list \<Rightarrow> error + (LineData \<times> LineData list \<times> string list)" where
  "verbose_sections infile =
     (let (l1, f1) = readline infile; global_headers = string_split l1;
          (l2, f2) = readline f1; global_line = string_split l2
      in case LineData_init global_headers global_line of
           Inl e \<Rightarrow> Inl e
         | Inr gdata \<Rightarrow>
             (let (blank, f3) = readline f2;
                  (curline, f4) = readline f3;
                  f5 = skip_cells f4;
                  (l6, f6) = readline f5; pcpu_headers = string_split l6
              in case pcpu_loop pcpu_headers f6 [] of
                   Inl e \<Rightarrow> Inl e
                 | Inr (pcpus, f7) \<Rightarrow> Inr (gdata, pcpus, f7)))"

text \<open>The vcpu table, read in both modes: the header line, then the loop.\<close>

definition vcpu_section :: "string list \<Rightarrow> LineData list \<times> string list" where
  "vcpu_section infile =
     (let (l, f) = readline infile; vcpu_headers = string_split l
      in vcpu_loop vcpu_headers f ([], []))"

text \<open>
  \<^verbatim>\<open>load_data(filename, verbose)\<close>. The file is \<open>None\<close> when it does not exist (the assertion
  at the top). The local variable \<^verbatim>\<open>global_data\<close> is assigned in the verbose block only, so with
  \<^verbatim>\<open>verbose=0\<close> the \<^verbatim>\<open>return\<close> statement reads an unbound local.
\<close>

definition load_data :: "string list option \<Rightarrow> bool \<Rightarrow> error + SchedData" where
  "load_data file verbose =
     (case file of
        None \<Rightarrow> Inl AssertionError
      | Some infile \<Rightarrow>
          (if verbose then
             (case verbose_sections infile of
                Inl e \<Rightarrow> Inl e
              | Inr (gdata, pcpus, f) \<Rightarrow>
                  (let (vcpus, vlines) = vcpu_section f
                   in Inr \<lparr> vcpu_list = vcpus, pcpu_list = pcpus,
                            vcpulines = Some vlines, global_data = Some gdata \<rparr>))
           else
             (let (vcpus, vlines) = vcpu_section infile
              in Inl UnboundLocalError)))"

section \<open>Built-in conversions and formatting\<close>

text \<open>
  The built-in conversions \<^verbatim>\<open>int(s)\<close> and \<^verbatim>\<open>float(s)\<close> of a string are parameters of the
  model: every function below that converts a column takes them in a \<open>builtins\<close> record, and
  every theorem holds for all of them. Python floats are idealised as exact rationals.
\<close>

record builtins =
  int_of_str :: "string \<Rightarrow> error + int"
  float_of_str :: "string \<Rightarrow> error + rat"

text \<open>\<^verbatim>\<open>int(x)\<close> for the value of an attribute lookup: an integer is returned as it is.\<close>

fun py_int :: "builtins \<Rightarrow> pyval \<Rightarrow> error + int" where
  "py_int bi (PyInt n) = Inr n"
| "py_int bi (PyStr s) = int_of_str bi s"

text \<open>A list comprehension whose element expression may raise: the first exception wins.\<close>

fun map_err :: "('a \<Rightarrow> error + 'b) \<Rightarrow> 'a list \<Rightarrow> error + 'b list" where
  "map_err f [] = Inr []"
| "map_err f (x # xs) =
     (case f x of
        Inl e \<Rightarrow> Inl e
      | Inr y \<Rightarrow> (case map_err f xs of Inl e \<Rightarrow> Inl e | Inr ys \<Rightarrow> Inr (y # ys)))"

text \<open>\<^verbatim>\<open>max(xs)\<close> of a list of integers; the empty list raises \<^verbatim>\<open>ValueError\<close>.\<close>

fun py_max :: "int list \<Rightarrow> error + int" where
  "py_max [] = Inl ValueError"
| "py_max (x # xs) = Inr (fold max xs x)"

text \<open>
  \<^verbatim>\<open>reduce(operator.add, xs)\<close> with no initial value: \<^verbatim>\<open>TypeError\<close> on the empty list,
  otherwise the sum taken from the left.
\<close>

fun reduce_add :: "rat list \<Rightarrow> error + rat" where
  "reduce_add [] = Inl TypeError"
| "reduce_add (x # xs) = Inr (foldl (+) x xs)"

text \<open>\<^verbatim>\<open>str(n)\<close> and \<^verbatim>\<open>"%d" % n\<close> of an integer: its decimal digits, after a minus sign if negative.\<close>

definition digit_char :: "nat \<Rightarrow> char" where
  "digit_char n = ''0123456789'' ! n"

fun digits :: "nat \<Rightarrow> string" where
  "digits n = (if n < 10 then [digit_char n] else digits (n div 10) @ [digit_char (n mod 10)])"

definition str_int :: "int \<Rightarrow> string" where
  "str_int n = (if n < 0 then CHR ''-'' # digits (nat (- n)) else digits (nat n))"

text \<open>A decimal numeral: at least one digit, after an optional minus sign.\<close>

definition is_decimal :: "string \<Rightarrow> bool" where
  "is_decimal s =
     (case s of
        [] \<Rightarrow> False
      | c # cs \<Rightarrow> (if c = CHR ''-'' then cs \<noteq> [] \<and> list_all isdigit cs
                   else list_all isdigit s))"

text \<open>\<^verbatim>\<open>"%0wd" % n\<close>: the sign, then zeros up to the width \<open>w\<close>, then the digits.\<close>

definition format_0d :: "nat \<Rightarrow> int \<Rightarrow> string" where
  "format_0d w n =
     (let sign = (if n < 0 then ''-'' else []); ds = digits (nat \<bar>n\<bar>)
      in sign @ replicate (w - (length sign + length ds)) (CHR ''0'') @ ds)"

text \<open>\<^verbatim>\<open>xs * k\<close> for a list and an integer: \<open>k\<close> copies, none when \<open>k\<close> is not positive.\<close>

definition list_times :: "'a list \<Rightarrow> int \<Rightarrow> 'a list" where
  "list_times xs k = concat (replicate (nat k) xs)"

text \<open>\<^verbatim>\<open>xs.index(x)\<close>: the first position of \<open>x\<close>, \<^verbatim>\<open>ValueError\<close> when there is none.\<close>

fun list_index :: "'a list \<Rightarrow> 'a \<Rightarrow> error + nat" where
  "list_index [] x = Inl ValueError"
| "list_index (y # ys) x =
     (if y = x then Inr 0
      else (case list_index ys x of Inl e \<Rightarrow> Inl e | Inr n \<Rightarrow> Inr (Suc n)))"

section \<open>runschedtests: worlds\<close>

text \<open>
  The value of the \<open>affinity\<close> field: \<^verbatim>\<open>None\<close>, a pcpu number, a specification string such as
  \<^verbatim>\<open>"1,2"\<close>, or a list with one pcpu per vcpu.
\<close>

datatype affinity = AffNone | AffInt int | AffStr string | AffList "int list"

datatype world_class = Class_TestWorld | Class_TimerWorld | Class_BasicWorld

text \<open>
  \<^verbatim>\<open>class VM\<close> and its subclass \<^verbatim>\<open>TestWorld\<close> (with \<^verbatim>\<open>TimerWorld\<close> and \<^verbatim>\<open>BasicWorld\<close>) as one
  record. The fields \<^verbatim>\<open>min\<close> and \<^verbatim>\<open>max\<close> are \<open>min_pct\<close> and \<open>max_pct\<close>. \<open>vmid\<close> is \<open>None\<close>
  until \<open>start\<close> assigns it: reading it before raises \<^verbatim>\<open>AttributeError\<close>.
\<close>

record TestWorld =
  cls :: world_class
  schedData :: "SchedData option"
  leader :: "LineData option"
  vcpus :: "LineData list"
  htsharing :: "string option"
  run :: int
  wait :: int
  shares :: int
  numvcpus :: int
  path :: "string option"
  min_pct :: int
  max_pct :: int
  affinity :: affinity
  vmid :: "int option"

definition TestWorld_init ::
  "int \<Rightarrow> int \<Rightarrow> int \<Rightarrow> int \<Rightarrow> int \<Rightarrow> int \<Rightarrow> affinity \<Rightarrow> TestWorld" where
  "TestWorld_init run' wait' shares' numvcpus' min' max' affinity' =
     \<lparr> cls = Class_TestWorld, schedData = None, leader = None, vcpus = [], htsharing = None,
       run = run', wait = wait', shares = shares', numvcpus = numvcpus', path = None,
       min_pct = min',
       max_pct = (if max' = 0 then 100 * numvcpus' else max'),
       affinity = affinity', vmid = None \<rparr>"

definition TimerWorld_path :: string where
  "TimerWorld_path = ''/proc/vmware/testworlds/timer-based''"

definition TimerWorld_init ::
  "int \<Rightarrow> int \<Rightarrow> int \<Rightarrow> int \<Rightarrow> int \<Rightarrow> int \<Rightarrow> affinity \<Rightarrow> TestWorld" where
  "TimerWorld_init run' wait' shares' numvcpus' min' max' affinity' =
     (TestWorld_init run' wait' shares' numvcpus' min' max' affinity')
       \<lparr> cls := Class_TimerWorld, path := Some TimerWorld_path \<rparr>"

definition BasicWorld_init ::
  "int \<Rightarrow> int \<Rightarrow> int \<Rightarrow> int \<Rightarrow> int \<Rightarrow> int \<Rightarrow> affinity \<Rightarrow> TestWorld" where
  "BasicWorld_init run' wait' shares' numvcpus' min' max' affinity' =
     (TestWorld_init run' wait' shares' numvcpus' min' max' affinity')
       \<lparr> cls := Class_BasicWorld, path := Some ''/proc/vmware/testworlds/basic'' \<rparr>"

text \<open>\<^verbatim>\<open>shortFormat\<close>: \<^verbatim>\<open>"%05d-%1d-%02dr-%02dw" % (shares, numvcpus, run, wait)\<close>, with the subclass's prefix.\<close>

definition TestWorld_shortFormat :: "TestWorld \<Rightarrow> string" where
  "TestWorld_shortFormat self =
     format_0d 5 (shares self) @ ''-'' @ str_int (numvcpus self) @ ''-'' @
     format_0d 2 (run self) @ ''r-'' @ format_0d 2 (wait self) @ ''w''"

definition shortFormat :: "TestWorld \<Rightarrow> string" where
  "shortFormat self =
     (case cls self of
        Class_TestWorld \<Rightarrow> TestWorld_shortFormat self
      | Class_TimerWorld \<Rightarrow> ''timer-'' @ TestWorld_shortFormat self
      | Class_BasicWorld \<Rightarrow> ''basic-'' @ TestWorld_shortFormat self)"

text \<open>\<^verbatim>\<open>getVMDir\<close>: \<^verbatim>\<open>"/proc/vmware/vm/%d/" % self.vmid\<close>.\<close>

definition getVMDir :: "TestWorld \<Rightarrow> error + string" where
  "getVMDir self =
     (case vmid self of
        None \<Rightarrow> Inl AttributeError
      | Some i \<Rightarrow> Inr (''/proc/vmware/vm/'' @ str_int i @ ''/''))"

section \<open>runschedtests: the proc file system, world ids and start\<close>

text \<open>
  What one look at \<^verbatim>\<open>/proc/vmware\<close> shows: the names of the entries of \<^verbatim>\<open>/proc/vmware/vm/\<close>
  (the last components of the paths \<^verbatim>\<open>glob\<close> returns) and the lines of
  \<^verbatim>\<open>/proc/vmware/sched/cpu-verbose\<close>.
\<close>

record procfs =
  vm_nodes :: "string list"
  cpu_verbose :: "string list option"

text \<open>
  \<^verbatim>\<open>get_max_vmid()\<close> on the state it observes: \<^verbatim>\<open>load_data()\<close> is called with its defaults, so
  in verbose mode.
\<close>

definition get_max_vmid :: "builtins \<Rightarrow> procfs \<Rightarrow> error + int" where
  "get_max_vmid bi p =
     (case map_err (int_of_str bi) (vm_nodes p) of
        Inl e \<Rightarrow> Inl e
      | Inr nodes \<Rightarrow>
     (case py_max nodes of
        Inl e \<Rightarrow> Inl e
      | Inr maxNode \<Rightarrow>
     (case load_data (cpu_verbose p) True of
        Inl e \<Rightarrow> Inl e
      | Inr sched \<Rightarrow>
     (case map_err (\<lambda>v. py_int bi (LineData_getattr v ''vm'')) (vcpu_list sched) of
        Inl e \<Rightarrow> Inl e
      | Inr ids \<Rightarrow>
     (case py_max ids of
        Inl e \<Rightarrow> Inl e
      | Inr maxVM \<Rightarrow> Inr (min maxVM maxNode))))))"

text \<open>
  The harness and the scheduler run side by side: \<open>obs k\<close> is the state of the proc file system
  at the harness's \<open>k\<close>-th look, \<open>clock\<close> counts the looks, and \<open>writes\<close> logs every write to a
  control file as (path, text), oldest first. A stateful operation returns its result or its
  exception together with the new environment: a write stays done when a later statement
  raises.
\<close>

record env =
  obs :: "nat \<Rightarrow> procfs"
  clock :: nat
  writes :: "(string \<times> string) list"

type_synonym 'a io = "env \<Rightarrow> (error + 'a) \<times> env"

definition return_io :: "'a \<Rightarrow> 'a io" where
  "return_io a e = (Inr a, e)"

definition raise_io :: "error \<Rightarrow> 'a io" where
  "raise_io er e = (Inl er, e)"

definition bind_io :: "'a io \<Rightarrow> ('a \<Rightarrow> 'b io) \<Rightarrow> 'b io" where
  "bind_io m f e = (case m e of (Inl er, e') \<Rightarrow> (Inl er, e') | (Inr a, e') \<Rightarrow> f a e')"

definition lift_io :: "error + 'a \<Rightarrow> 'a io" where
  "lift_io r e = (r, e)"

definition write_file :: "string \<Rightarrow> string \<Rightarrow> unit io" where
  "write_file p text e = (Inr (), e\<lparr> writes := writes e @ [(p, text)] \<rparr>)"

definition get_max_vmid_io :: "builtins \<Rightarrow> int io" where
  "get_max_vmid_io bi e = (get_max_vmid bi (obs e (clock e)), e\<lparr> clock := Suc (clock e) \<rparr>)"

text \<open>\<^verbatim>\<open>configMin\<close>, \<^verbatim>\<open>configMax\<close> and \<^verbatim>\<open>configHTSharing\<close>: one write each.\<close>

definition configMin :: "TestWorld \<Rightarrow> int \<Rightarrow> unit io" where
  "configMin self m =
     bind_io (lift_io (getVMDir self)) (\<lambda>d. write_file (d @ ''cpu/min'') (str_int m))"

definition configMax :: "TestWorld \<Rightarrow> int \<Rightarrow> unit io" where
  "configMax self m =
     bind_io (lift_io (getVMDir self)) (\<lambda>d. write_file (d @ ''cpu/max'') (str_int m))"

definition configHTSharing :: "TestWorld \<Rightarrow> unit io" where
  "configHTSharing self =
     bind_io (lift_io (getVMDir self)) (\<lambda>d.
       case htsharing self of
         None \<Rightarrow> raise_io TypeError
       | Some s \<Rightarrow> write_file (d @ ''cpu/hyperthreading'') s)"

text \<open>
  \<^verbatim>\<open>configAffinity\<close>. \<open>affinity_pairs\<close> is the loop over \<^verbatim>\<open>range(0, self.numvcpus)\<close> of the
  list case (\<^verbatim>\<open>affin[i]\<close> raises \<^verbatim>\<open>IndexError\<close> past the end of the list); \<open>str_affinity\<close> is
  \<^verbatim>\<open>str(affin)\<close>; \<^verbatim>\<open>"all:" + affin + ";"\<close> raises \<^verbatim>\<open>TypeError\<close> unless \<open>affin\<close> is a string.
\<close>

fun affinity_pairs :: "int list \<Rightarrow> nat list \<Rightarrow> string \<Rightarrow> error + string" where
  "affinity_pairs affin [] affinstr = Inr affinstr"
| "affinity_pairs affin (i # is) affinstr =
     (if i < length affin
      then affinity_pairs affin is
             (affinstr @ str_int (int i) @ '':'' @ str_int (affin ! i) @ '';'')
      else Inl IndexError)"

text \<open>\<^verbatim>\<open>sep.join(xs)\<close>.\<close>

fun join_with :: "string \<Rightarrow> string list \<Rightarrow> string" where
  "join_with sep [] = []"
| "join_with sep [s] = s"
| "join_with sep (s # t # ss) = s @ sep @ join_with sep (t # ss)"

fun str_affinity :: "affinity \<Rightarrow> string" where
  "str_affinity AffNone = ''None''"
| "str_affinity (AffInt n) = str_int n"
| "str_affinity (AffStr s) = s"
| "str_affinity (AffList l) = ''['' @ join_with '', '' (map str_int l) @ '']''"

definition affinity_string :: "TestWorld \<Rightarrow> error + string" where
  "affinity_string self =
     (case affinity self of
        AffList l \<Rightarrow> affinity_pairs l [0 ..< nat (numvcpus self)] []
      | affin \<Rightarrow>
          (if numvcpus self = 1 then Inr (str_affinity affin)
           else (case affin of AffStr s \<Rightarrow> Inr (''all:'' @ s @ '';'') | _ \<Rightarrow> Inl TypeError)))"

definition configAffinity :: "TestWorld \<Rightarrow> unit io" where
  "configAffinity self =
     bind_io (lift_io (getVMDir self)) (\<lambda>d.
     bind_io (lift_io (affinity_string self)) (\<lambda>affinstr.
       write_file (d @ ''cpu/affinity'') affinstr))"

text \<open>
  The polling loop of \<open>start\<close>: \<open>spincount\<close> is incremented, the id is read again, and the
  exception is raised when \<open>spincount\<close> has passed 5, after the read.
\<close>

function spin_loop :: "builtins \<Rightarrow> int \<Rightarrow> nat \<Rightarrow> int \<Rightarrow> int io" where
  "spin_loop bi oldmax spincount cur e =
     (if cur = oldmax then
        (case get_max_vmid_io bi e of
           (Inl er, e') \<Rightarrow> (Inl er, e')
         | (Inr cur', e') \<Rightarrow>
             (if Suc spincount > 5
              then (Inl (StringException ''Failed to create new testworld''), e')
              else spin_loop bi oldmax (Suc spincount) cur' e'))
      else (Inr cur, e))"
  by pat_completeness auto
termination
  by (relation "measure (\<lambda>(bi, oldmax, spincount, cur, e). 6 - spincount)") auto

text \<open>
  \<open>start\<close> up to the end of the polling loop (id discovery): it returns \<open>oldmax\<close> and the world
  with its \<open>vmid\<close> assigned.
\<close>

definition start_discover :: "builtins \<Rightarrow> TestWorld \<Rightarrow> (int \<times> TestWorld) io" where
  "start_discover bi self =
     (case path self of
        None \<Rightarrow> raise_io AssertionError
      | Some p \<Rightarrow>
          (if p = [] then raise_io AssertionError
           else
             bind_io (get_max_vmid_io bi) (\<lambda>oldmax.
             bind_io (write_file p (''start '' @ str_int (numvcpus self) @ '' '' @
                        str_int (shares self) @ '' '' @ str_int (run self) @ '' '' @
                        str_int (wait self))) (\<lambda>_.
             bind_io (get_max_vmid_io bi) (\<lambda>cur.
             bind_io (spin_loop bi oldmax 0 cur) (\<lambda>newid.
               return_io (oldmax, self\<lparr> vmid := Some newid \<rparr>)))))))"

text \<open>The four conditional configuration calls of \<open>start\<close>, after id discovery.\<close>

definition start_configure :: "TestWorld \<Rightarrow> unit io" where
  "start_configure self =
     bind_io (if min_pct self \<noteq> 0 then configMin self (min_pct self) else return_io ()) (\<lambda>_.
     bind_io (if max_pct self \<noteq> numvcpus self * 100 then configMax self (max_pct self)
              else return_io ()) (\<lambda>_.
     bind_io (if affinity self \<noteq> AffNone then configAffinity self else return_io ()) (\<lambda>_.
       (if htsharing self \<noteq> None then configHTSharing self else return_io ()))))"

definition start :: "builtins \<Rightarrow> TestWorld \<Rightarrow> TestWorld io" where
  "start bi self =
     bind_io (start_discover bi self) (\<lambda>(oldmax, w).
     bind_io (start_configure w) (\<lambda>_.
       (if vmid w \<noteq> Some oldmax then return_io w else raise_io AssertionError)))"

section \<open>runschedtests: reading a snapshot into a world\<close>

text \<open>
  The loop of \<open>VM.setSchedData\<close> over the vcpu records: \<^verbatim>\<open>int(v.vm) == self.vmid\<close> selects
  the world's vcpus, and a vcpu with \<^verbatim>\<open>int(v.vm) == int(v.vcpu)\<close> becomes the leader. The
  accumulator is \<open>(self.vcpus, self.leader)\<close>.
\<close>

fun setSchedData_loop :: "builtins \<Rightarrow> int option \<Rightarrow> LineData list
      \<Rightarrow> LineData list \<times> LineData option \<Rightarrow> error + (LineData list \<times> LineData option)" where
  "setSchedData_loop bi wid [] acc = Inr acc"
| "setSchedData_loop bi wid (v # vs) (vc, ld) =
     (case py_int bi (LineData_getattr v ''vm'') of
        Inl e \<Rightarrow> Inl e
      | Inr vm \<Rightarrow>
          (case wid of
             None \<Rightarrow> Inl AttributeError
           | Some i \<Rightarrow>
               (if vm = i then
                  (case py_int bi (LineData_getattr v ''vcpu'') of
                     Inl e \<Rightarrow> Inl e
                   | Inr vcpu \<Rightarrow>
                       setSchedData_loop bi wid vs
                         (vc @ [v], if vm = vcpu then Some v else ld))
                else setSchedData_loop bi wid vs (vc, ld))))"

text \<open>
  \<open>VM.setSchedData\<close>: \<open>self.leader\<close> is not reset, so a leader of an earlier snapshot stays when
  this one has none; with no leader at all the final assertion fails.
\<close>

definition setSchedData :: "builtins \<Rightarrow> SchedData \<Rightarrow> TestWorld \<Rightarrow> error + TestWorld" where
  "setSchedData bi sched self =
     (case setSchedData_loop bi (vmid self) (vcpu_list sched) ([], leader self) of
        Inl e \<Rightarrow> Inl e
      | Inr (vc, ld) \<Rightarrow>
          (if ld = None then Inl AssertionError
           else Inr (self\<lparr> schedData := Some sched, vcpus := vc, leader := ld \<rparr>)))"

text \<open>
  \<^verbatim>\<open>getVcpuVal(valname, float)\<close>: the columns are read with \<^verbatim>\<open>x.data[valname]\<close>, which raises
  \<^verbatim>\<open>KeyError\<close> for a missing column. \<^verbatim>\<open>getVMVal(valname, typefun)\<close> reads the leader's column.
\<close>

definition column :: "LineData \<Rightarrow> string \<Rightarrow> error + string" where
  "column x valname = (case data x valname of None \<Rightarrow> Inl KeyError | Some s \<Rightarrow> Inr s)"

definition getVcpuVal_float :: "builtins \<Rightarrow> TestWorld \<Rightarrow> string \<Rightarrow> error + rat" where
  "getVcpuVal_float bi self valname =
     (if schedData self = None then Inl AssertionError
      else
        (case map_err (\<lambda>x. case column x valname of
                               Inl e \<Rightarrow> Inl e
                             | Inr s \<Rightarrow> float_of_str bi s) (vcpus self) of
           Inl e \<Rightarrow> Inl e
         | Inr xs \<Rightarrow> reduce_add xs))"


definition getUsedSec :: "builtins \<Rightarrow> TestWorld \<Rightarrow> error + rat" where
  "getUsedSec bi self = getVcpuVal_float bi self ''usedsec''"

section \<open>runschedtests: the tests\<close>

text \<open>
  The worlds of a test are Python objects: a test holds references to them, and \<open>vms * k\<close>
  repeats the same references. A reference is a natural number and the heap maps it to the
  object's fields.
\<close>

type_synonym world_ref = nat

type_synonym heap = "world_ref \<Rightarrow> TestWorld"

record BasicTest =
  name :: string
  vms :: "world_ref list"
  alwaysVerbose :: bool

text \<open>\<open>BasicTest.__init__\<close>, followed by the subclass's \<^verbatim>\<open>self.name = name\<close>; \<open>factor\<close> is \<^verbatim>\<open>TEST_SIZE_FACTOR\<close>.\<close>

definition BasicTest_init :: "int \<Rightarrow> world_ref list \<Rightarrow> string \<Rightarrow> BasicTest" where
  "BasicTest_init factor vms' name' =
     \<lparr> name = name', vms = list_times vms' factor, alwaysVerbose = False \<rparr>"

record FairnessTest = BasicTest +
  maxUnfairness :: rat

text \<open>\<open>FairnessTest.__init__(vms, name, maxUnfairness=0.1)\<close>; \<open>None\<close> is the omitted argument.\<close>

definition FairnessTest_init :: "int \<Rightarrow> world_ref list \<Rightarrow> string \<Rightarrow> rat option \<Rightarrow> FairnessTest" where
  "FairnessTest_init factor vms' name' mu =
     BasicTest.extend (BasicTest_init factor vms' name')
       (FairnessTest.fields (case mu of None \<Rightarrow> 1 / 10 | Some x \<Rightarrow> x))"

datatype FairnessError = FairnessError (desc: string) (vm: world_ref) (fairness: rat) (sched: SchedData)

text \<open>
  The first loop of \<open>FairnessTest.results\<close>: every world reads the snapshot, and the shares and
  the used seconds are summed. The accumulator is the heap with the two totals.
\<close>

fun fairness_totals :: "builtins \<Rightarrow> SchedData \<Rightarrow> world_ref list \<Rightarrow> heap \<times> int \<times> rat
      \<Rightarrow> error + (heap \<times> int \<times> rat)" where
  "fairness_totals bi sd [] acc = Inr acc"
| "fairness_totals bi sd (r # rs) (h, totalShares, totalUsed) =
     (case setSchedData bi sd (h r) of
        Inl e \<Rightarrow> Inl e
      | Inr v \<Rightarrow>
          (case getUsedSec bi v of
             Inl e \<Rightarrow> Inl e
           | Inr u \<Rightarrow>
               fairness_totals bi sd rs (h(r := v), totalShares + shares v, totalUsed + u)))"

text \<open>The key of a world in the result map: \<^verbatim>\<open>v.shortFormat() + "#" + str(self.vms.index(v))\<close>.\<close>

definition fairness_key :: "heap \<Rightarrow> world_ref list \<Rightarrow> world_ref \<Rightarrow> error + string" where
  "fairness_key h refs r =
     (case list_index refs r of
        Inl e \<Rightarrow> Inl e
      | Inr k \<Rightarrow> Inr (shortFormat (h r) @ ''#'' @ str_int (int k)))"

text \<open>The second loop, over \<^verbatim>\<open>range(0, len(self.vms))\<close>; the accumulator is \<open>(resmap, errors)\<close>.\<close>

fun fairness_loop :: "builtins \<Rightarrow> FairnessTest \<Rightarrow> SchedData \<Rightarrow> heap \<Rightarrow> int \<Rightarrow> rat \<Rightarrow> nat list
      \<Rightarrow> (string \<rightharpoonup> rat) \<times> FairnessError list
      \<Rightarrow> error + ((string \<rightharpoonup> rat) \<times> FairnessError list)" where
  "fairness_loop bi self sd h totalShares totalUsed [] acc = Inr acc"
| "fairness_loop bi self sd h totalShares totalUsed (i # is) (resmap, errors) =
     (let r = vms self ! i; v = h r in
      if \<not> shares v > 0 then Inl AssertionError
      else
        (let shareFraction = rat_of_int (shares v) / rat_of_int totalShares in
         case getUsedSec bi v of
           Inl e \<Rightarrow> Inl e
         | Inr u \<Rightarrow>
             (let fairness = (u / totalUsed) / shareFraction;
                  errors' = (if \<bar>fairness - 1\<bar> > maxUnfairness self
                             then errors @ [FairnessError ''unfairness limit exceeded'' r fairness sd]
                             else errors)
              in case fairness_key h (vms self) r of
                   Inl e \<Rightarrow> Inl e
                 | Inr k \<Rightarrow>
                     fairness_loop bi self sd h totalShares totalUsed is
                       (resmap(k \<mapsto> fairness), errors'))))"

text \<open>
  \<open>FairnessTest.results\<close>; \<open>file\<close> is what \<^verbatim>\<open>/proc/vmware/sched/cpu-verbose\<close> holds when
  \<^verbatim>\<open>load_data()\<close> reads it. The worlds keep what \<open>setSchedData\<close> stored, so the heap is
  returned with the pair \<open>(resmap, errors)\<close>.
\<close>

definition FairnessTest_results :: "builtins \<Rightarrow> FairnessTest \<Rightarrow> string list option \<Rightarrow> heap
      \<Rightarrow> error + ((string \<rightharpoonup> rat) \<times> FairnessError list \<times> heap)" where
  "FairnessTest_results bi self file h =
     (case load_data file True of
        Inl e \<Rightarrow> Inl e
      | Inr sd \<Rightarrow>
          (case fairness_totals bi sd (vms self) (h, 0, 0) of
             Inl e \<Rightarrow> Inl e
           | Inr (h', totalShares, totalUsed) \<Rightarrow>
               (if \<not> totalUsed > 0 then Inl AssertionError
                else if \<not> totalShares > 0 then Inl AssertionError
                else
                  (case fairness_loop bi self sd h' totalShares totalUsed
                          [0 ..< length (vms self)] (Map.empty, []) of
                     Inl e \<Rightarrow> Inl e
                   | Inr (resmap, errors) \<Rightarrow> Inr (resmap, errors, h')))))"

text \<open>
  \<^verbatim>\<open>get_num_cpus()\<close> on the lines of \<^verbatim>\<open>/proc/vmware/sched/ncpus\<close>: it returns (physical, logical).
\<close>

definition first_token :: "string \<Rightarrow> error + string" where
  "first_token l = (case string_split l of [] \<Rightarrow> Inl IndexError | tok # _ \<Rightarrow> Inr tok)"

definition get_num_cpus :: "builtins \<Rightarrow> string list \<Rightarrow> error + (int \<times> int)" where
  "get_num_cpus bi lines =
     (case lines of
        [] \<Rightarrow> Inl IndexError
      | [l] \<Rightarrow> (case int_of_str bi l of Inl e \<Rightarrow> Inl e | Inr cpus \<Rightarrow> Inr (cpus, cpus))
      | l0 # l1 # _ \<Rightarrow>
          (case first_token l0 of
             Inl e \<Rightarrow> Inl e
           | Inr t0 \<Rightarrow>
          (case int_of_str bi t0 of
             Inl e \<Rightarrow> Inl e
           | Inr logical \<Rightarrow>
          (case first_token l1 of
             Inl e \<Rightarrow> Inl e
           | Inr t1 \<Rightarrow>
          (case int_of_str bi t1 of
             Inl e \<Rightarrow> Inl e
           | Inr phys \<Rightarrow> Inr (phys, logical))))))"

record MinMaxTest = BasicTest +
  maxErr :: rat
  baseShares :: rat


text \<open>
  The message of a \<open>TestError\<close> is a format string filled with the used seconds and the
  expected usage; the model keeps the two numbers.
\<close>

datatype minmax_msg = BelowMinUsage rat rat | ExceededMaxUsage rat rat

datatype TestError = TestError (msg: minmax_msg) (err_sched: SchedData) (conf: MinMaxTest)

definition is_below_min :: "TestError \<Rightarrow> bool" where
  "is_below_min e = (case msg e of BelowMinUsage u m \<Rightarrow> True | ExceededMaxUsage u m \<Rightarrow> False)"

definition is_exceeded_max :: "TestError \<Rightarrow> bool" where
  "is_exceeded_max e = (case msg e of BelowMinUsage u m \<Rightarrow> False | ExceededMaxUsage u m \<Rightarrow> True)"

text \<open>\<^verbatim>\<open>float(uptime * amin) / 100.0\<close>, the expected usage for a percentage.\<close>

definition expected_usage :: "rat \<Rightarrow> int \<Rightarrow> rat" where
  "expected_usage uptime pct = uptime * rat_of_int pct / 100"

text \<open>The two \<^verbatim>\<open>if\<close> statements of the loop body of \<open>MinMaxTest.results\<close>: the errors one world appends.\<close>

definition minmax_errors :: "MinMaxTest \<Rightarrow> SchedData \<Rightarrow> int \<Rightarrow> int \<Rightarrow> rat \<Rightarrow> rat \<Rightarrow> TestError list" where
  "minmax_errors self sd amin amax uptime usedsec =
     (let minUsage = expected_usage uptime amin; maxUsage = expected_usage uptime amax
      in (if amin \<noteq> 0 \<and> usedsec < minUsage * (1 - maxErr self)
          then [TestError (BelowMinUsage usedsec minUsage) sd self] else []) @
         (if amax \<noteq> 0 \<and> usedsec > maxUsage * (1 + maxErr self)
          then [TestError (ExceededMaxUsage usedsec maxUsage) sd self] else []))"





section \<open>runschedtests: the affinity torture test\<close>

text \<open>\<^verbatim>\<open>s.split(",")\<close>: the pieces between the separators, empty ones included.\<close>

fun split_on_aux :: "char \<Rightarrow> string \<Rightarrow> string \<Rightarrow> string list" where
  "split_on_aux sep cur [] = [cur]"
| "split_on_aux sep cur (c # cs) =
     (if c = sep then cur # split_on_aux sep [] cs else split_on_aux sep (cur @ [c]) cs)"

definition split_on :: "char \<Rightarrow> string \<Rightarrow> string list" where
  "split_on sep s = split_on_aux sep [] s"

text \<open>
  The loop of \<open>checkAffinity\<close> for a specification string. \<^verbatim>\<open>p = v.cpu\<close> is the column as a
  string, or the integer 0 when the record has no such column; the message is built with
  \<^verbatim>\<open>%d\<close>, which raises \<^verbatim>\<open>TypeError\<close> for a string.
\<close>

fun checkAffinity_spec :: "string \<Rightarrow> string list \<Rightarrow> LineData list \<Rightarrow> bool \<times> string list
      \<Rightarrow> error + (bool \<times> string list)" where
  "checkAffinity_spec affstr allaffin [] acc = Inr acc"
| "checkAffinity_spec affstr allaffin (v # vs) (res, es) =
     (case LineData_getattr v ''cpu'' of
        PyStr p \<Rightarrow>
          (if p \<in> set allaffin then checkAffinity_spec affstr allaffin vs (res, es)
           else Inl TypeError)
      | PyInt p \<Rightarrow>
          checkAffinity_spec affstr allaffin vs
            (False, es @ [''affinity='' @ affstr @ '', running on pcpu '' @ str_int p @ [CHR 0x0A]]))"

text \<open>The loop of \<open>checkAffinity\<close> for a pcpu number or a list, over \<^verbatim>\<open>range(0, vm.numvcpus)\<close>.\<close>

fun checkAffinity_list :: "builtins \<Rightarrow> string \<Rightarrow> int list \<Rightarrow> LineData list \<Rightarrow> nat list
      \<Rightarrow> bool \<times> string list \<Rightarrow> error + (bool \<times> string list)" where
  "checkAffinity_list bi affstr affinlst vcs [] acc = Inr acc"
| "checkAffinity_list bi affstr affinlst vcs (i # is) (res, es) =
     (if \<not> i < length vcs then Inl IndexError
      else
        (case py_int bi (LineData_getattr (vcs ! i) ''cpu'') of
           Inl e \<Rightarrow> Inl e
         | Inr p \<Rightarrow>
             (if \<not> i < length affinlst then Inl IndexError
              else if p \<noteq> affinlst ! i then
                checkAffinity_list bi affstr affinlst vcs is
                  (False, es @ [''affinity='' @ affstr @ '', affinlist[i]='' @ str_int (affinlst ! i) @
                                '', vcpu='' @ str_int (int i) @ '', running on pcpu: '' @
                                str_int p @ [CHR 0x0A]])
              else checkAffinity_list bi affstr affinlst vcs is (res, es))))"

definition checkAffinity :: "builtins \<Rightarrow> TestWorld \<Rightarrow> error + (bool \<times> string list)" where
  "checkAffinity bi vm' =
     (case affinity vm' of
        AffNone \<Rightarrow> Inr (True, [])
      | AffStr s \<Rightarrow>
          checkAffinity_spec (str_affinity (affinity vm')) (split_on (CHR '','') s) (vcpus vm') (True, [])
      | AffInt n \<Rightarrow>
          checkAffinity_list bi (str_affinity (affinity vm')) [n] (vcpus vm')
            [0 ..< nat (numvcpus vm')] (True, [])
      | AffList l \<Rightarrow>
          checkAffinity_list bi (str_affinity (affinity vm')) l (vcpus vm')
            [0 ..< nat (numvcpus vm')] (True, []))"

record AffinityTortureTest = BasicTest +
  numreps :: int
  errs :: "string list"
  ncpus :: "int \<times> int"

text \<open>
  \<open>AffinityTortureTest.__init__(vms, name, numreps=10)\<close>; \<open>nc\<close> is what \<open>get_num_cpus\<close> returned.
\<close>

definition AffinityTortureTest_init ::
  "int \<Rightarrow> world_ref list \<Rightarrow> string \<Rightarrow> int option \<Rightarrow> int \<times> int \<Rightarrow> AffinityTortureTest" where
  "AffinityTortureTest_init factor vms' name' reps nc =
     BasicTest.extend (BasicTest_init factor vms' name')
       (AffinityTortureTest.fields (case reps of None \<Rightarrow> 10 | Some n \<Rightarrow> n) [] nc)"

text \<open>
  The random numbers are an oracle: \<open>rnd k\<close> decides the \<open>k\<close>-th draw, and the state counts the
  draws. \<open>rand_unique\<close> is the loop of \<open>randAffinity\<close> that draws a pcpu for each vcpu without
  replacement (\<^verbatim>\<open>random.choice\<close> of an empty list raises \<^verbatim>\<open>IndexError\<close>).
\<close>

fun rand_unique :: "(nat \<Rightarrow> nat) \<Rightarrow> nat \<Rightarrow> int list \<Rightarrow> nat \<Rightarrow> int list
      \<Rightarrow> error + (int list \<times> nat)" where
  "rand_unique rnd k r 0 res = Inr (res, k)"
| "rand_unique rnd k r (Suc n) res =
     (if r = [] then Inl IndexError
      else (let c = r ! (rnd k mod length r)
            in rand_unique rnd (Suc k) (remove1 c r) n (res @ [c])))"

definition randAffinity :: "(nat \<Rightarrow> nat) \<Rightarrow> nat \<Rightarrow> int \<times> int \<Rightarrow> int
      \<Rightarrow> error + (affinity \<times> nat)" where
  "randAffinity rnd k nc nv =
     (if rnd k mod 4 = 0
      then Inr (AffStr (join_with '','' (map (\<lambda>i. str_int (int i)) [0 ..< nat (snd nc)])), Suc k)
      else
        (case rand_unique rnd (Suc k) (map int [0 ..< nat (snd nc)]) (nat nv) [] of
           Inl e \<Rightarrow> Inl e
         | Inr (res, k') \<Rightarrow> Inr (AffList res, k')))"

text \<open>
  The state of a run: the heap of the worlds, \<open>self.errs\<close>, the environment and the number of
  random draws so far.
\<close>

record torture_state =
  t_heap :: heap
  t_errs :: "string list"
  t_env :: env
  t_draws :: nat

text \<open>
  The inner loop of \<open>AffinityTortureTest.run\<close> over the worlds. In the stuck branch the message
  is built from \<^verbatim>\<open>v.vcpu\<close> and \<^verbatim>\<open>v.usedsec\<close>, where \<open>v\<close> is the world: a world has neither
  attribute (and no attribute hook), so evaluating \<^verbatim>\<open>"vm " + v.vcpu\<close> raises \<^verbatim>\<open>AttributeError\<close>
  before anything is appended.
\<close>

fun torture_vms :: "builtins \<Rightarrow> (nat \<Rightarrow> nat) \<Rightarrow> int \<times> int \<Rightarrow> SchedData \<Rightarrow> world_ref list
      \<Rightarrow> torture_state \<Rightarrow> error + torture_state" where
  "torture_vms bi rnd nc sd [] st = Inr st"
| "torture_vms bi rnd nc sd (r # rs) st =
     (case setSchedData bi sd (t_heap st r) of
        Inl e \<Rightarrow> Inl e
      | Inr v \<Rightarrow>
     (case checkAffinity bi v of
        Inl e \<Rightarrow> Inl e
      | Inr (res, newerrs) \<Rightarrow>
     (case getVcpuVal_float bi v ''usedsec'' of
        Inl e \<Rightarrow> Inl e
      | Inr u \<Rightarrow>
          (if u < 1 / 100 then Inl AttributeError
           else
             (case randAffinity rnd (t_draws st) nc (numvcpus v) of
                Inl e \<Rightarrow> Inl e
              | Inr (aff, k) \<Rightarrow>
                  (let v' = v\<lparr> affinity := aff \<rparr> in
                   case configAffinity v' (t_env st) of
                     (Inl e, env') \<Rightarrow> Inl e
                   | (Inr u', env') \<Rightarrow>
                       torture_vms bi rnd nc sd rs
                         \<lparr> t_heap = (t_heap st)(r := v'),
                           t_errs = (if \<not> res then t_errs st @ newerrs else t_errs st),
                           t_env = env', t_draws = k \<rparr>))))))"

text \<open>
  The outer loop, once per repetition: the statistics are reset, a random time is slept (one
  draw), the snapshot is loaded (one look at the proc file system), and the worlds are checked.
\<close>

fun torture_reps :: "builtins \<Rightarrow> (nat \<Rightarrow> nat) \<Rightarrow> AffinityTortureTest \<Rightarrow> nat
      \<Rightarrow> torture_state \<Rightarrow> error + torture_state" where
  "torture_reps bi rnd self 0 st = Inr st"
| "torture_reps bi rnd self (Suc n) st =
     (let e1 = snd (write_file ''/proc/vmware/sched/reset-stats'' ''reset'' (t_env st));
          file = cpu_verbose (obs e1 (clock e1));
          e2 = e1\<lparr> clock := Suc (clock e1) \<rparr>
      in case load_data file True of
           Inl e \<Rightarrow> Inl e
         | Inr sd \<Rightarrow>
             (case torture_vms bi rnd (ncpus self) sd (vms self)
                     (st\<lparr> t_env := e2, t_draws := Suc (t_draws st) \<rparr>) of
                Inl e \<Rightarrow> Inl e
              | Inr st' \<Rightarrow> torture_reps bi rnd self n st'))"

text \<open>
  \<open>AffinityTortureTest.run\<close>: the errors collected so far are those of the test, and the test
  comes back with the errors of the run.
\<close>

definition AffinityTortureTest_run :: "builtins \<Rightarrow> (nat \<Rightarrow> nat) \<Rightarrow> AffinityTortureTest \<Rightarrow> heap
      \<Rightarrow> env \<Rightarrow> error + (AffinityTortureTest \<times> heap \<times> env)" where
  "AffinityTortureTest_run bi rnd self h e =
     (case torture_reps bi rnd self (nat (numreps self))
             \<lparr> t_heap = h, t_errs = errs self, t_env = e, t_draws = 0 \<rparr> of
        Inl er \<Rightarrow> Inl er
      | Inr st \<Rightarrow> Inr (self\<lparr> errs := t_errs st \<rparr>, t_heap st, t_env st))"

text \<open>
  The fairness ratio as the spec writes it: the observed share of the used time over the share
  of the shares.
\<close>

definition fair_ratio :: "rat \<Rightarrow> rat \<Rightarrow> int \<Rightarrow> int \<Rightarrow> rat" where
  "fair_ratio used totalUsed shares' totalShares =
     (used / totalUsed) / (rat_of_int shares' / rat_of_int totalShares)"

text \<open>The heap in which every world \<open>r\<close> has the shares \<open>s r\<close> and is otherwise unchanged.\<close>

definition with_shares :: "(world_ref \<Rightarrow> int) \<Rightarrow> heap \<Rightarrow> heap" where
  "with_shares s h = (\<lambda>r. (h r)\<lparr> shares := s r \<rparr>)"

section \<open>Concrete inputs\<close>

text \<open>A line as \<^verbatim>\<open>readline()\<close> returns it: the text and the newline.\<close>

definition ln :: "string \<Rightarrow> string" where
  "ln s = s @ [CHR 0x0A]"

text \<open>
  The sections of a verbose dump that precede the vcpu table: the global header and line, a
  blank line, the cell header with one cell line and its blank line, the pcpu header with two
  pcpu lines and the blank line after them.
\<close>

definition dump_prefix :: "string list" where
  "dump_prefix = map ln [''uptime total'', ''100.0 2'', '''',
                         ''cell cpus'', ''0 2'', '''',
                         ''pcpu yield'', ''0 17'', ''1 4'', '''']"

text \<open>A well-formed dump: four vcpu columns, three vcpu lines, then a blank line.\<close>

definition dump_ok :: "string list" where
  "dump_ok = dump_prefix @ map ln [''vcpu vm name usedsec'',
                                    ''100 100 idle0 1.5'',
                                    ''101 101 basic 6.0'',
                                    ''102 101 basic 4.5'', '''']"

text \<open>The same dump with the second vcpu line cut short.\<close>

definition dump_one_bad :: "string list" where
  "dump_one_bad = dump_prefix @ map ln [''vcpu vm name usedsec'',
                                         ''100 100 idle0 1.5'',
                                         ''101 101'',
                                         ''102 101 basic 4.5'', '''']"

text \<open>A dump whose vcpu header names the column \<open>usedsec\<close> twice.\<close>

definition dump_repeated_column :: "string list" where
  "dump_repeated_column = dump_prefix @ map ln [''vcpu usedsec usedsec'', ''100 1.5 2.5'', '''']"

text \<open>A dump whose second pcpu line has one column where the header has two.\<close>

definition dump_bad_pcpu :: "string list" where
  "dump_bad_pcpu = map ln [''uptime total'', ''100.0 2'', '''',
                           ''cell cpus'', ''0 2'', '''',
                           ''pcpu yield'', ''0 17'', ''1'', '''',
                           ''vcpu vm name usedsec'', ''100 100 idle0 1.5'', '''']"

text \<open>A dump in the non-verbose format: the vcpu table only.\<close>

definition dump_plain :: "string list" where
  "dump_plain = map ln [''vcpu vm name usedsec'', ''100 100 idle0 1.5'', '''']"

text \<open>
  An instance of the two conversions for the columns of the inputs above: it reads an unsigned
  decimal numeral, with an optional fraction for \<open>float\<close>, to the value Python gives it, and
  raises \<^verbatim>\<open>ValueError\<close> on any other string.
\<close>

definition digit_val :: "char \<Rightarrow> nat" where
  "digit_val c = of_char c - 48"

definition dec_nat :: "string \<Rightarrow> nat" where
  "dec_nat s = foldl (\<lambda>a c. 10 * a + digit_val c) 0 s"

definition dec_int_of_str :: "string \<Rightarrow> error + int" where
  "dec_int_of_str s =
     (if s \<noteq> [] \<and> list_all isdigit s then Inr (int (dec_nat s)) else Inl ValueError)"

definition dec_float_of_str :: "string \<Rightarrow> error + rat" where
  "dec_float_of_str s =
     (let a = takeWhile (\<lambda>c. c \<noteq> CHR ''.'') s;
          b = drop 1 (dropWhile (\<lambda>c. c \<noteq> CHR ''.'') s)
      in if a \<noteq> [] \<and> list_all isdigit a \<and> list_all isdigit b
         then Inr (of_nat (dec_nat a) + of_nat (dec_nat b) / 10 ^ length b)
         else Inl ValueError)"

definition dec_builtins :: builtins where
  "dec_builtins = \<lparr> int_of_str = dec_int_of_str, float_of_str = dec_float_of_str \<rparr>"

text \<open>
  The proc file system before a new world shows up (world 100 only) and after (worlds 100 and
  101, as in \<open>dump_ok\<close>), and an environment in which the first look sees the former and every
  later look the latter.
\<close>

definition dump_before :: "string list" where
  "dump_before = dump_prefix @ map ln [''vcpu vm name usedsec'', ''100 100 idle0 1.5'', '''']"

definition procfs_before :: procfs where
  "procfs_before = \<lparr> vm_nodes = [''100''], cpu_verbose = Some dump_before \<rparr>"

definition procfs_after :: procfs where
  "procfs_after = \<lparr> vm_nodes = [''100'', ''101''], cpu_verbose = Some dump_ok \<rparr>"

definition env0 :: env where
  "env0 = \<lparr> obs = (\<lambda>k. if k = 0 then procfs_before else procfs_after), clock = 0, writes = [] \<rparr>"

text \<open>Worlds with the id 101 and each kind of affinity.\<close>

definition world_pairs :: TestWorld where
  "world_pairs = (BasicWorld_init 10 0 1000 2 0 0 (AffList [1, 0]))\<lparr> vmid := Some 101 \<rparr>"

definition world_uni_pcpu :: TestWorld where
  "world_uni_pcpu = (BasicWorld_init 10 0 1000 1 0 0 (AffInt 1))\<lparr> vmid := Some 101 \<rparr>"

definition world_uni_spec :: TestWorld where
  "world_uni_spec = (BasicWorld_init 10 0 1000 1 0 0 (AffStr ''0,1''))\<lparr> vmid := Some 101 \<rparr>"

definition world_dual_spec :: TestWorld where
  "world_dual_spec = (BasicWorld_init 10 0 1000 2 0 0 (AffStr ''1,2''))\<lparr> vmid := Some 101 \<rparr>"

text \<open>Two worlds not yet started: one created with \<^verbatim>\<open>max=25\<close>, one with \<^verbatim>\<open>max\<close> left at 0.\<close>

definition world_max25 :: TestWorld where
  "world_max25 = BasicWorld_init 10 0 1000 1 0 25 AffNone"

definition world_default :: TestWorld where
  "world_default = BasicWorld_init 10 0 1000 1 0 0 AffNone"

text \<open>
  Two started worlds, with the ids 100 and 101 of \<open>dump_ok\<close> and the shares 1000 and 6000, in a
  heap whose other references hold an unstarted world; and a fairness test over the two, with
  the default \<open>maxUnfairness\<close>.
\<close>

definition heap0 :: heap where
  "heap0 = (\<lambda>r. world_default)
     (0 := (BasicWorld_init 10 0 1000 1 0 0 AffNone)\<lparr> vmid := Some 100 \<rparr>,
      1 := (BasicWorld_init 10 0 6000 2 0 0 AffNone)\<lparr> vmid := Some 101 \<rparr>)"

definition fairness_test0 :: FairnessTest where
  "fairness_test0 = FairnessTest_init 1 [0, 1] ''two worlds'' None"

text \<open>The snapshot \<open>load_data\<close> returns for \<open>dump_ok\<close>.\<close>

definition sched_ok :: SchedData where
  "sched_ok = projr (load_data (Some dump_ok) True)"





text \<open>
  A torture test of one repetition over the single-vcpu world of \<open>heap0\<close>, whose vcpu used no
  time in the sampling window, and one over its two-vcpu world, of which one vcpu used no time
  and the other 4.5 seconds; the proc file system shows the same dump at every look.
\<close>

definition dump_stuck :: "string list" where
  "dump_stuck = dump_prefix @ map ln [''vcpu vm name usedsec cpu'',
                                       ''100 100 basic 0.0 0'',
                                       ''101 101 basic 0.0 0'',
                                       ''102 101 basic 4.5 1'', '''']"

definition env_stuck :: env where
  "env_stuck = \<lparr> obs = (\<lambda>k. \<lparr> vm_nodes = [''100'', ''101''], cpu_verbose = Some dump_stuck \<rparr>),
                 clock = 0, writes = [] \<rparr>"

definition torture_uni :: AffinityTortureTest where
  "torture_uni = AffinityTortureTest_init 1 [0] ''one uni'' (Some 1) (2, 2)"

definition torture_dual :: AffinityTortureTest where
  "torture_dual = AffinityTortureTest_init 1 [1] ''one dual'' (Some 1) (2, 2)"

section \<open>Properties of the parser\<close>

lemma LineData_init_dom_aux:
  "dom (fold (\<lambda>i d. d(hs ! i \<mapsto> cs ! i)) [0 ..< n] m) = dom m \<union> {hs ! i | i. i < n}"
proof (induction n arbitrary: m)
  case 0
  then show ?case by simp
next
  case (Suc n)
  have set_eq: "{hs ! i | i. i < Suc n} = insert (hs ! n) {hs ! i | i. i < n}"
    by (auto simp: less_Suc_eq)
  have "dom (fold (\<lambda>i d. d(hs ! i \<mapsto> cs ! i)) [0 ..< Suc n] m) =
        insert (hs ! n) (dom (fold (\<lambda>i d. d(hs ! i \<mapsto> cs ! i)) [0 ..< n] m))"
    by simp
  also have "\<dots> = insert (hs ! n) (dom m \<union> {hs ! i | i. i < n})"
    by (simp only: Suc.IH)
  finally show ?case unfolding set_eq by blast
qed

lemma LineData_init_dom:
  assumes "LineData_init hs cs = Inr r"
  shows "dom (data r) = set hs"
proof -
  from assms have len: "length hs = length cs"
    and r: "r = \<lparr> data = fold (\<lambda>i d. d(hs ! i \<mapsto> cs ! i)) [0 ..< length hs] Map.empty \<rparr>"
    by (auto simp: LineData_init_def split: if_splits)
  have "{hs ! i | i. i < length hs} = set hs"
    by (auto simp: in_set_conv_nth)
  with r show ?thesis by (simp add: LineData_init_dom_aux)
qed

lemma vcpu_loop_rows:
  assumes "\<forall>l \<in> set rows. notblank_match l"
      and "rest = [] \<or> \<not> notblank_match (hd rest)"
  shows "vcpu_loop hs (rows @ rest) (vs, ls) =
           (vs @ map (\<lambda>l. projr (LineData_init hs (string_split l)))
                   (filter (\<lambda>l. length (string_split l) = length hs) rows),
            ls @ rows)"
  using assms
proof (induction rows arbitrary: vs ls)
  case Nil
  then show ?case by (cases rest) auto
next
  case (Cons l rows)
  then show ?case
    by (auto simp: LineData_init_def split: sum.splits)
qed

lemma num_fields_card:
  assumes "LineData_init hs cs = Inr r"
  shows "num_fields r = card (set hs)"
  using LineData_init_dom[OF assms] by (simp add: num_fields_def)

lemmas parse_eval = load_data_def verbose_sections_def vcpu_section_def string_split_def ln_def
  isspace_def isdigit_def notblank_match_def LineData_init_def dump_prefix_def

subsection \<open>C7: the attribute hook of a record\<close>



subsection \<open>C2: the number of vcpu records\<close>

text \<open>
  C2, as the code has it. Take a dump read in verbose mode whose global, cell and pcpu sections
  parse, and whose vcpu table is a header line \<open>hdr\<close> followed by the lines \<open>rows\<close>, each
  matching the leading-digit pattern, and then by the end of the file or a line that does not
  match. Then \<open>load_data\<close> returns a snapshot; if every line of \<open>rows\<close> splits into as many
  tokens as the header has columns, it has one vcpu record per line; if exactly one line splits
  into a different number of tokens, it has one record less; and every vcpu record has as many
  fields as the header has distinct column names, which is the number of columns when the
  names are pairwise distinct.
\<close>

theorem load_data_vcpu_records:
  assumes sec: "verbose_sections infile = Inr (g, ps, hdr # rows @ rest)"
      and rows: "\<forall>l \<in> set rows. notblank_match l"
      and rest: "rest = [] \<or> \<not> notblank_match (hd rest)"
  shows "\<exists>sd. load_data (Some infile) True = Inr sd \<and>
           ((\<forall>l \<in> set rows. length (string_split l) = length (string_split hdr))
              \<longrightarrow> length (vcpu_list sd) = length rows) \<and>
           (length (filter (\<lambda>l. length (string_split l) \<noteq> length (string_split hdr)) rows) = 1
              \<longrightarrow> length (vcpu_list sd) = length rows - 1) \<and>
           (\<forall>r \<in> set (vcpu_list sd).
              num_fields r = card (set (string_split hdr)) \<and>
              (distinct (string_split hdr) \<longrightarrow> num_fields r = length (string_split hdr)))"
proof -
  let ?hs = "string_split hdr"
  let ?good = "filter (\<lambda>l. length (string_split l) = length ?hs) rows"
  let ?recs = "map (\<lambda>l. projr (LineData_init ?hs (string_split l))) ?good"
  let ?sd = "\<lparr> vcpu_list = ?recs, pcpu_list = ps, vcpulines = Some rows, global_data = Some g \<rparr>"
  have sect: "vcpu_section (hdr # rows @ rest) = (?recs, rows)"
    using vcpu_loop_rows[OF rows rest, of ?hs "[]" "[]"] by (simp add: vcpu_section_def)
  have ld: "load_data (Some infile) True = Inr ?sd"
    by (simp add: load_data_def sec sect)
  have all_good: "length ?recs = length rows"
    if "\<forall>l \<in> set rows. length (string_split l) = length ?hs"
    using that by simp
  have compl: "length ?good + length (filter (\<lambda>l. length (string_split l) \<noteq> length ?hs) rows)
                 = length rows"
    using sum_length_filter_compl[of "\<lambda>l. length (string_split l) = length ?hs" rows] by simp
  have one_bad: "length ?recs = length rows - 1"
    if "length (filter (\<lambda>l. length (string_split l) \<noteq> length ?hs) rows) = 1"
    using that compl by simp
  have fields: "num_fields r = card (set ?hs)" if "r \<in> set ?recs" for r
  proof -
    from that obtain l where l: "length (string_split l) = length ?hs"
      and r: "r = projr (LineData_init ?hs (string_split l))" by auto
    from l have "LineData_init ?hs (string_split l) = Inr r"
      unfolding r by (simp add: LineData_init_def)
    then show ?thesis by (rule num_fields_card)
  qed
  have fields': "distinct ?hs \<longrightarrow> num_fields r = length ?hs" if "r \<in> set ?recs" for r
    using fields[OF that] by (simp add: distinct_card)
  show ?thesis
    using ld all_good one_bad fields fields' by (intro exI[of _ ?sd]) simp
qed

theorem load_data_vcpu_records_witness:
  "(\<exists>sd. load_data (Some dump_ok) True = Inr sd \<and> length (vcpu_list sd) = 3 \<and>
         list_all (\<lambda>r. num_fields r = 4) (vcpu_list sd)) \<and>
   (\<exists>sd. load_data (Some dump_one_bad) True = Inr sd \<and> length (vcpu_list sd) = 2 \<and>
         list_all (\<lambda>r. num_fields r = 4) (vcpu_list sd))"
proof -
  let ?g = "\<lparr>data = [''uptime'' \<mapsto> ''100.0'', ''total'' \<mapsto> ''2'']\<rparr>"
  let ?ps = "[\<lparr>data = [''pcpu'' \<mapsto> ''0'', ''yield'' \<mapsto> ''17'']\<rparr>,
              \<lparr>data = [''pcpu'' \<mapsto> ''1'', ''yield'' \<mapsto> ''4'']\<rparr>]"
  let ?hdr = "ln ''vcpu vm name usedsec''"
  let ?ok = "map ln [''100 100 idle0 1.5'', ''101 101 basic 6.0'', ''102 101 basic 4.5'']"
  let ?bad = "map ln [''100 100 idle0 1.5'', ''101 101'', ''102 101 basic 4.5'']"
  have s1: "verbose_sections dump_ok = Inr (?g, ?ps, ?hdr # ?ok @ [ln ''''])"
    by (simp add: dump_ok_def parse_eval)
  have s2: "verbose_sections dump_one_bad = Inr (?g, ?ps, ?hdr # ?bad @ [ln ''''])"
    by (simp add: dump_one_bad_def parse_eval)
  have r1: "\<forall>l \<in> set ?ok. notblank_match l" and r2: "\<forall>l \<in> set ?bad. notblank_match l"
    by (simp_all add: parse_eval)
  have e: "[ln ''''] = [] \<or> \<not> notblank_match (hd [ln ''''])"
    by (simp add: parse_eval)
  have d: "distinct (string_split ?hdr)"
    by (simp add: parse_eval)
  have n: "length (string_split ?hdr) = 4"
    by (simp add: parse_eval)
  have g1: "\<forall>l \<in> set ?ok. length (string_split l) = length (string_split ?hdr)"
    by (simp add: parse_eval)
  have g2: "length (filter (\<lambda>l. length (string_split l) \<noteq> length (string_split ?hdr)) ?bad) = 1"
    by (simp add: parse_eval)
  from load_data_vcpu_records[OF s1 r1 e] g1 n d
  have a: "\<exists>sd. load_data (Some dump_ok) True = Inr sd \<and> length (vcpu_list sd) = 3 \<and>
         list_all (\<lambda>r. num_fields r = 4) (vcpu_list sd)"
    by (auto simp: list_all_iff)
  from load_data_vcpu_records[OF s2 r2 e] g2 n d
  have b: "\<exists>sd. load_data (Some dump_one_bad) True = Inr sd \<and> length (vcpu_list sd) = 2 \<and>
         list_all (\<lambda>r. num_fields r = 4) (vcpu_list sd)"
    by (auto simp: list_all_iff)
  from a b show ?thesis by blast
qed

text \<open>
  C2 as the spec states it asks for as many fields as the header has columns, whatever the
  column names. A header with three columns, two of them named \<open>usedsec\<close>, and one matching
  line of three tokens give one record with two fields: the dictionary keeps one entry per
  name.
\<close>

theorem load_data_repeated_column_counterexample:
  "length (string_split (ln ''vcpu usedsec usedsec'')) = 3 \<and>
   length (string_split (ln ''100 1.5 2.5'')) = 3 \<and>
   notblank_match (ln ''100 1.5 2.5'') \<and> \<not> notblank_match (ln '''') \<and>
   \<not> isl (load_data (Some dump_repeated_column) True) \<and>
   map num_fields (vcpu_list (projr (load_data (Some dump_repeated_column) True))) = [2]"
  by (simp add: dump_repeated_column_def parse_eval num_fields_def)

subsection \<open>C3: a malformed line outside the vcpu table\<close>

text \<open>
  C3 says that a data line whose token count differs from its header's is dropped and the
  parse goes on, in the global, pcpu and vcpu sections, verbose or not. Only the vcpu loop
  catches the exception. For a verbose dump whose second pcpu line has one token under a
  header of two columns, \<open>load_data\<close> raises the string exception of \<open>LineData\<close>; and in
  non-verbose mode \<open>load_data\<close> raises \<^verbatim>\<open>UnboundLocalError\<close> on a well-formed dump, after
  reading it.
\<close>

theorem load_data_raises_on_bad_pcpu_line:
  "load_data (Some dump_bad_pcpu) True = Inl (StringException ''Mismatched data and headers'') \<and>
   load_data (Some dump_plain) False = Inl UnboundLocalError"
  by (simp add: dump_bad_pcpu_def dump_plain_def parse_eval)

section \<open>Properties of the worlds\<close>

subsection \<open>Decimal numerals\<close>

declare digits.simps [simp del]

lemma lt10_cases: "d < 10 \<Longrightarrow> d \<in> {0, 1, 2, 3, 4, 5, 6, 7, 8, 9 :: nat}"
  by auto

lemma digit_char_isdigit: "d < 10 \<Longrightarrow> isdigit (digit_char d)"
  by (drule lt10_cases) (auto simp: digit_char_def isdigit_def)

lemma digits_nonempty: "digits n \<noteq> []"
  by (subst digits.simps) simp

lemma digits_all_isdigit: "list_all isdigit (digits n)"
proof (induction n rule: digits.induct)
  case (1 n)
  show ?case
  proof (cases "n < 10")
    case True
    then show ?thesis by (subst digits.simps) (simp add: digit_char_isdigit)
  next
    case False
    with 1 show ?thesis by (subst digits.simps) (simp add: digit_char_isdigit)
  qed
qed

lemma minus_not_digit: "\<not> isdigit (CHR ''-'')"
  by (simp add: isdigit_def)

lemma is_decimal_str_int: "is_decimal (str_int p)"
proof (cases "p < 0")
  case True
  then show ?thesis
    by (simp add: is_decimal_def str_int_def digits_nonempty digits_all_isdigit)
next
  case False
  obtain c cs where d: "digits (nat p) = c # cs"
    using digits_nonempty[of "nat p"] by (cases "digits (nat p)") auto
  have all: "list_all isdigit (c # cs)"
    using digits_all_isdigit[of "nat p"] d by simp
  then have "c \<noteq> CHR ''-''" using minus_not_digit by auto
  with False d all show ?thesis by (simp add: is_decimal_def str_int_def)
qed

lemma affinity_pairs_concat:
  "\<forall>i \<in> set is. i < length l \<Longrightarrow>
   affinity_pairs l is acc =
     Inr (acc @ concat (map (\<lambda>k. str_int (int k) @ '':'' @ str_int (l ! k) @ '';'') is))"
  by (induction "is" arbitrary: acc) auto

lemmas io_defs = bind_io_def lift_io_def write_file_def return_io_def raise_io_def

subsection \<open>C6: the wire format of the affinity\<close>

text \<open>
  C6, as the code has it. For a world with an id, \<open>configAffinity\<close> makes one write to the
  world's \<^verbatim>\<open>cpu/affinity\<close> file. When the affinity is a list with an entry for each of the
  \<open>numvcpus\<close> vcpus, it writes the pairs \<^verbatim>\<open><vcpu>:<pcpu>;\<close> for the vcpus 0 to \<open>numvcpus - 1\<close>
  in order. Otherwise, for a single vcpu, it writes \<^verbatim>\<open>str(affinity)\<close>: the decimal numeral of
  an integer pcpu, and a specification string as it is. Otherwise, for a specification string,
  it writes \<^verbatim>\<open>all:\<close>, the string and \<^verbatim>\<open>;\<close>.
\<close>

theorem configAffinity_wire_format:
  assumes "vmid self = Some i"
  shows "(\<forall>l. affinity self = AffList l \<and> nat (numvcpus self) \<le> length l \<longrightarrow>
            configAffinity self e =
              (Inr (), e\<lparr> writes := writes e @
                 [(''/proc/vmware/vm/'' @ str_int i @ ''/cpu/affinity'',
                   concat (map (\<lambda>k. str_int (int k) @ '':'' @ str_int (l ! k) @ '';'')
                               [0 ..< nat (numvcpus self)]))] \<rparr>)) \<and>
         (\<forall>p. affinity self = AffInt p \<and> numvcpus self = 1 \<longrightarrow>
            is_decimal (str_int p) \<and>
            configAffinity self e =
              (Inr (), e\<lparr> writes := writes e @
                 [(''/proc/vmware/vm/'' @ str_int i @ ''/cpu/affinity'', str_int p)] \<rparr>)) \<and>
         (\<forall>s. affinity self = AffStr s \<and> numvcpus self = 1 \<longrightarrow>
            configAffinity self e =
              (Inr (), e\<lparr> writes := writes e @
                 [(''/proc/vmware/vm/'' @ str_int i @ ''/cpu/affinity'', s)] \<rparr>)) \<and>
         (\<forall>s. affinity self = AffStr s \<and> numvcpus self \<noteq> 1 \<longrightarrow>
            configAffinity self e =
              (Inr (), e\<lparr> writes := writes e @
                 [(''/proc/vmware/vm/'' @ str_int i @ ''/cpu/affinity'', ''all:'' @ s @ '';'')] \<rparr>))"
proof -
  have dir: "getVMDir self = Inr (''/proc/vmware/vm/'' @ str_int i @ ''/'')"
    using assms by (simp add: getVMDir_def)
  have lst: "affinity_string self =
               Inr (concat (map (\<lambda>k. str_int (int k) @ '':'' @ str_int (l ! k) @ '';'')
                               [0 ..< nat (numvcpus self)]))"
    if "affinity self = AffList l" "nat (numvcpus self) \<le> length l" for l
    using that affinity_pairs_concat[of "[0 ..< nat (numvcpus self)]" l "[]"]
    by (simp add: affinity_string_def)
  show ?thesis
    using lst by (auto simp: configAffinity_def io_defs dir affinity_string_def is_decimal_str_int)
qed

lemmas world_eval = world_pairs_def world_uni_pcpu_def world_uni_spec_def world_dual_spec_def
  BasicWorld_init_def TestWorld_init_def

theorem configAffinity_wire_format_witness:
  "configAffinity world_pairs env0 =
     (Inr (), env0\<lparr> writes := [(''/proc/vmware/vm/101/cpu/affinity'', ''0:1;1:0;'')] \<rparr>) \<and>
   configAffinity world_uni_pcpu env0 =
     (Inr (), env0\<lparr> writes := [(''/proc/vmware/vm/101/cpu/affinity'', ''1'')] \<rparr>) \<and>
   configAffinity world_uni_spec env0 =
     (Inr (), env0\<lparr> writes := [(''/proc/vmware/vm/101/cpu/affinity'', ''0,1'')] \<rparr>) \<and>
   configAffinity world_dual_spec env0 =
     (Inr (), env0\<lparr> writes := [(''/proc/vmware/vm/101/cpu/affinity'', ''all:1,2;'')] \<rparr>)"
proof -
  have s: "str_int 101 = ''101''" "str_int 0 = ''0''" "str_int 1 = ''1''"
    by (simp_all add: str_int_def digits.simps digit_char_def)
  have w: "writes env0 = []" by (simp add: env0_def)
  have u: "[0 ..< 2] = [0, 1::nat]" by (simp add: upt_rec)
  show ?thesis
    using configAffinity_wire_format[of world_pairs 101 env0]
          configAffinity_wire_format[of world_uni_pcpu 101 env0]
          configAffinity_wire_format[of world_uni_spec 101 env0]
          configAffinity_wire_format[of world_dual_spec 101 env0]
    by (simp add: world_eval s w u)
qed

text \<open>
  C6 as the spec states it has the bare decimal pcpu value written whenever the world has a
  single vcpu and the affinity is no list. A single-vcpu world whose affinity is the
  specification string \<^verbatim>\<open>"0,1"\<close> (as \<open>randAffinity\<close> gives it) has that string written, which
  is no decimal numeral.
\<close>

theorem configAffinity_single_vcpu_spec_counterexample:
  "numvcpus world_uni_spec = 1 \<and> affinity world_uni_spec = AffStr ''0,1'' \<and>
   configAffinity world_uni_spec env0 =
     (Inr (), env0\<lparr> writes := [(''/proc/vmware/vm/101/cpu/affinity'', ''0,1'')] \<rparr>) \<and>
   \<not> is_decimal ''0,1''"
  by (simp add: world_eval configAffinity_def io_defs getVMDir_def affinity_string_def env0_def
        str_int_def digits.simps digit_char_def is_decimal_def isdigit_def)

subsection \<open>C10: the highest world id\<close>

lemma py_max_Max:
  assumes "xs \<noteq> []"
  shows "py_max xs = Inr (Max (set xs))"
proof (cases xs)
  case Nil
  with assms show ?thesis by simp
next
  case (Cons a list)
  have "Max (set (a # list)) = fold max list a" by (rule Max.set_eq_fold)
  then show ?thesis using Cons by simp
qed

lemmas dec_eval = dec_builtins_def dec_int_of_str_def dec_float_of_str_def dec_nat_def
  digit_val_def isdigit_def

lemma dump_ok_loaded:
  "load_data (Some dump_ok) True =
     Inr \<lparr> vcpu_list =
             [\<lparr>data = [''vcpu'' \<mapsto> ''100'', ''vm'' \<mapsto> ''100'', ''name'' \<mapsto> ''idle0'', ''usedsec'' \<mapsto> ''1.5'']\<rparr>,
              \<lparr>data = [''vcpu'' \<mapsto> ''101'', ''vm'' \<mapsto> ''101'', ''name'' \<mapsto> ''basic'', ''usedsec'' \<mapsto> ''6.0'']\<rparr>,
              \<lparr>data = [''vcpu'' \<mapsto> ''102'', ''vm'' \<mapsto> ''101'', ''name'' \<mapsto> ''basic'', ''usedsec'' \<mapsto> ''4.5'']\<rparr>],
           pcpu_list =
             [\<lparr>data = [''pcpu'' \<mapsto> ''0'', ''yield'' \<mapsto> ''17'']\<rparr>,
              \<lparr>data = [''pcpu'' \<mapsto> ''1'', ''yield'' \<mapsto> ''4'']\<rparr>],
           vcpulines = Some (map ln [''100 100 idle0 1.5'', ''101 101 basic 6.0'', ''102 101 basic 4.5'']),
           global_data = Some \<lparr>data = [''uptime'' \<mapsto> ''100.0'', ''total'' \<mapsto> ''2'']\<rparr> \<rparr>"
  by (simp add: dump_ok_def parse_eval)

text \<open>
  C10, as the code has it. In every state in which \<^verbatim>\<open>/proc/vmware/vm/\<close> has at least one entry,
  every entry name converts to an integer, the snapshot parses and has at least one vcpu record,
  and every record's \<open>vm\<close> converts to an integer, \<open>get_max_vmid\<close> returns the minimum of the
  largest entry name and the largest \<open>vm\<close> of a vcpu record. So the returned id is above an old
  value exactly when an id above it is visible in both sources.
\<close>

theorem get_max_vmid_min_of_maxima:
  assumes nodes: "map_err (int_of_str bi) (vm_nodes p) = Inr nodes" and "nodes \<noteq> []"
      and sd: "load_data (cpu_verbose p) True = Inr sd"
      and ids: "map_err (\<lambda>v. py_int bi (LineData_getattr v ''vm'')) (vcpu_list sd) = Inr ids"
      and "ids \<noteq> []"
  shows "get_max_vmid bi p = Inr (min (Max (set ids)) (Max (set nodes))) \<and>
         (\<forall>old. old < min (Max (set ids)) (Max (set nodes)) \<longleftrightarrow>
                  (\<exists>n \<in> set nodes. old < n) \<and> (\<exists>i \<in> set ids. old < i))"
proof -
  have "get_max_vmid bi p = Inr (min (Max (set ids)) (Max (set nodes)))"
    using assms by (simp add: get_max_vmid_def py_max_Max)
  moreover have "old < Max (set nodes) \<longleftrightarrow> (\<exists>n \<in> set nodes. old < n)" for old
    using \<open>nodes \<noteq> []\<close> by (simp add: Max_gr_iff)
  moreover have "old < Max (set ids) \<longleftrightarrow> (\<exists>i \<in> set ids. old < i)" for old
    using \<open>ids \<noteq> []\<close> by (simp add: Max_gr_iff)
  ultimately show ?thesis by auto
qed

theorem get_max_vmid_min_of_maxima_witness:
  "get_max_vmid dec_builtins procfs_after = Inr 101 \<and>
   get_max_vmid dec_builtins \<lparr> vm_nodes = [''100'', ''101'', ''102''], cpu_verbose = Some dump_ok \<rparr> = Inr 101 \<and>
   get_max_vmid dec_builtins \<lparr> vm_nodes = [''100''], cpu_verbose = Some dump_ok \<rparr> = Inr 100"
proof -
  have ids: "map_err (\<lambda>v. py_int dec_builtins (LineData_getattr v ''vm''))
               (vcpu_list (projr (load_data (Some dump_ok) True))) = Inr [100, 101, 101]"
    by (simp add: dump_ok_loaded LineData_getattr_def dec_eval)
  have ld: "load_data (Some dump_ok) True = Inr (projr (load_data (Some dump_ok) True))"
    by (simp add: dump_ok_loaded)
  have n1: "map_err (int_of_str dec_builtins) [''100'', ''101''] = Inr [100, 101]"
   and n2: "map_err (int_of_str dec_builtins) [''100'', ''101'', ''102''] = Inr [100, 101, 102]"
   and n3: "map_err (int_of_str dec_builtins) [''100''] = Inr [100]"
    by (simp_all add: dec_eval)
  show ?thesis
    using get_max_vmid_min_of_maxima[of dec_builtins procfs_after "[100, 101]" _ "[100, 101, 101]"]
          get_max_vmid_min_of_maxima[of dec_builtins
             "\<lparr> vm_nodes = [''100'', ''101'', ''102''], cpu_verbose = Some dump_ok \<rparr>"
             "[100, 101, 102]" _ "[100, 101, 101]"]
          get_max_vmid_min_of_maxima[of dec_builtins
             "\<lparr> vm_nodes = [''100''], cpu_verbose = Some dump_ok \<rparr>"
             "[100]" _ "[100, 101, 101]"]
          ids ld n1 n2 n3
    by (simp add: procfs_after_def)
qed

text \<open>
  C10 as the spec states it is for every state of the proc file system. With no entry under
  \<^verbatim>\<open>/proc/vmware/vm/\<close> the maximum of the empty list raises \<^verbatim>\<open>ValueError\<close> and no id is
  returned.
\<close>

theorem get_max_vmid_empty_tree_counterexample:
  "get_max_vmid dec_builtins \<lparr> vm_nodes = [], cpu_verbose = Some dump_ok \<rparr> = Inl ValueError"
  by (simp add: get_max_vmid_def)

subsection \<open>C8: the default of max and its control file\<close>

lemma start_discover_world:
  assumes "start_discover bi self e = (Inr (oldmax, v), e1)"
  shows "\<exists>newid. v = self\<lparr> vmid := Some newid \<rparr>"
  using assms
  by (auto simp: start_discover_def io_defs split: option.splits if_splits prod.splits sum.splits)

lemma start_configure_writes:
  assumes "vmid v = Some i"
  shows "\<exists>cfg. writes (snd (start_configure v e1)) = writes e1 @ cfg \<and>
           (\<forall>c. ((''/proc/vmware/vm/'' @ str_int i @ ''/cpu/max'', c) \<in> set cfg) \<longleftrightarrow>
                  (max_pct v \<noteq> 100 * numvcpus v \<and> c = str_int (max_pct v)))"
  using assms
  by (auto simp: start_configure_def configMin_def configMax_def configAffinity_def
        configHTSharing_def io_defs getVMDir_def split: option.splits sum.splits)

lemma start_after_discover:
  assumes "start_discover bi self e = (Inr (oldmax, v), e1)"
  shows "writes (snd (start bi self e)) = writes (snd (start_configure v e1))"
  using assms
  by (auto simp: start_def io_defs split: prod.splits sum.splits)

lemmas dec_eval' = dec_eval LineData_getattr_def

lemma get_max_before: "get_max_vmid dec_builtins procfs_before = Inr 100"
  by (simp add: get_max_vmid_def procfs_before_def dump_before_def parse_eval dec_eval')

lemma get_max_after: "get_max_vmid dec_builtins procfs_after = Inr 101"
  by (simp add: get_max_vmid_def procfs_after_def dump_ok_loaded dec_eval')

lemma str_int_examples:
  "str_int 0 = ''0''" "str_int 1 = ''1''" "str_int 10 = ''10''" "str_int 25 = ''25''"
  "str_int 100 = ''100''" "str_int 101 = ''101''" "str_int 1000 = ''1000''"
  by (simp_all add: str_int_def digits.simps digit_char_def)

lemma discover_example:
  "path w = Some ''/proc/vmware/testworlds/basic'' \<Longrightarrow> numvcpus w = 1 \<Longrightarrow> shares w = 1000
   \<Longrightarrow> run w = 10 \<Longrightarrow> wait w = 0 \<Longrightarrow>
   start_discover dec_builtins w env0 =
     (Inr (100, w\<lparr> vmid := Some 101 \<rparr>),
      env0\<lparr> clock := 2, writes := [(''/proc/vmware/testworlds/basic'', ''start 1 1000 10 0'')] \<rparr>)"
  by (simp add: start_discover_def io_defs get_max_vmid_io_def env0_def get_max_before
        get_max_after str_int_examples)

text \<open>
  C8. A world constructed with \<^verbatim>\<open>max=0\<close> stores \<open>100 * numvcpus\<close>, in the base class and in
  both subclasses. If id discovery fails, \<open>start\<close> ends there with its exception. If it succeeds
  with the environment \<open>e1\<close>, the writes of \<open>start\<close> are those of \<open>e1\<close> followed by the
  configuration writes, and among these there is a write to the world's \<^verbatim>\<open>cpu/max\<close> file if and
  only if the stored max differs from \<open>100 * numvcpus\<close>; what is written is the stored max.
\<close>

theorem start_writes_max_iff_not_default:
  "max_pct (TestWorld_init r w s n mn 0 a) = 100 * n \<and>
   max_pct (TimerWorld_init r w s n mn 0 a) = 100 * n \<and>
   max_pct (BasicWorld_init r w s n mn 0 a) = 100 * n \<and>
   (\<forall>er e1. start_discover bi self e = (Inl er, e1) \<longrightarrow> start bi self e = (Inl er, e1)) \<and>
   (\<forall>oldmax v e1. start_discover bi self e = (Inr (oldmax, v), e1) \<longrightarrow>
      (\<exists>i. vmid v = Some i \<and>
           take (length (writes e1)) (writes (snd (start bi self e))) = writes e1 \<and>
           (\<forall>c. (''/proc/vmware/vm/'' @ str_int i @ ''/cpu/max'', c)
                   \<in> set (drop (length (writes e1)) (writes (snd (start bi self e)))) \<longleftrightarrow>
                 max_pct self \<noteq> 100 * numvcpus self \<and> c = str_int (max_pct self))))"
proof -
  have inits: "max_pct (TestWorld_init r w s n mn 0 a) = 100 * n"
    "max_pct (TimerWorld_init r w s n mn 0 a) = 100 * n"
    "max_pct (BasicWorld_init r w s n mn 0 a) = 100 * n"
    by (simp_all add: TestWorld_init_def TimerWorld_init_def BasicWorld_init_def)
  have fails: "start bi self e = (Inl er, e1)"
    if "start_discover bi self e = (Inl er, e1)" for er e1
    using that by (simp add: start_def io_defs)
  have found: "\<exists>i. vmid v = Some i \<and>
           take (length (writes e1)) (writes (snd (start bi self e))) = writes e1 \<and>
           (\<forall>c. (''/proc/vmware/vm/'' @ str_int i @ ''/cpu/max'', c)
                   \<in> set (drop (length (writes e1)) (writes (snd (start bi self e)))) \<longleftrightarrow>
                 max_pct self \<noteq> 100 * numvcpus self \<and> c = str_int (max_pct self))"
    if d: "start_discover bi self e = (Inr (oldmax, v), e1)" for oldmax v e1
  proof -
    from start_discover_world[OF d] obtain newid where v: "v = self\<lparr> vmid := Some newid \<rparr>" ..
    then have i: "vmid v = Some newid" by simp
    from start_configure_writes[OF i, of e1] obtain cfg where
      cfg: "writes (snd (start_configure v e1)) = writes e1 @ cfg"
      and mx: "\<forall>c. ((''/proc/vmware/vm/'' @ str_int newid @ ''/cpu/max'', c) \<in> set cfg) \<longleftrightarrow>
                  (max_pct v \<noteq> 100 * numvcpus v \<and> c = str_int (max_pct v))"
      by blast
    have w: "writes (snd (start bi self e)) = writes e1 @ cfg"
      using start_after_discover[OF d] cfg by simp
    show ?thesis
      using i w mx v by (intro exI[of _ newid]) simp
  qed
  show ?thesis using inits fails found by blast
qed

theorem start_writes_max_iff_not_default_witness:
  "max_pct world_default = 100 \<and>
   (''/proc/vmware/vm/101/cpu/max'', ''100'')
      \<notin> set (drop 1 (writes (snd (start dec_builtins world_default env0)))) \<and>
   (''/proc/vmware/vm/101/cpu/max'', ''25'')
      \<in> set (drop 1 (writes (snd (start dec_builtins world_max25 env0))))"
proof -
  have d1: "start_discover dec_builtins world_default env0 =
     (Inr (100, world_default\<lparr> vmid := Some 101 \<rparr>),
      env0\<lparr> clock := 2, writes := [(''/proc/vmware/testworlds/basic'', ''start 1 1000 10 0'')] \<rparr>)"
    by (rule discover_example) (simp_all add: world_default_def BasicWorld_init_def TestWorld_init_def)
  have d2: "start_discover dec_builtins world_max25 env0 =
     (Inr (100, world_max25\<lparr> vmid := Some 101 \<rparr>),
      env0\<lparr> clock := 2, writes := [(''/proc/vmware/testworlds/basic'', ''start 1 1000 10 0'')] \<rparr>)"
    by (rule discover_example) (simp_all add: world_max25_def BasicWorld_init_def TestWorld_init_def)
  have f: "max_pct world_default = 100" "numvcpus world_default = 1"
          "max_pct world_max25 = 25" "numvcpus world_max25 = 1"
    by (simp_all add: world_default_def world_max25_def BasicWorld_init_def TestWorld_init_def)
  from start_writes_max_iff_not_default[of 10 0 1000 1 0 AffNone dec_builtins world_max25 env0] d2 f
  have a: "(''/proc/vmware/vm/101/cpu/max'', ''25'')
      \<in> set (drop 1 (writes (snd (start dec_builtins world_max25 env0))))"
    by (simp add: str_int_examples)
  from start_writes_max_iff_not_default[of 10 0 1000 1 0 AffNone dec_builtins world_default env0] d1 f
  have b: "(''/proc/vmware/vm/101/cpu/max'', ''100'')
      \<notin> set (drop 1 (writes (snd (start dec_builtins world_default env0))))"
    by (simp add: str_int_examples)
  from a b f show ?thesis by simp
qed

section \<open>Properties of the tests\<close>

subsection \<open>Reading the snapshot twice\<close>

lemma setSchedData_loop_acc:
  "setSchedData_loop bi wid vs (vc0, ld0) = Inr (vc, ld) \<Longrightarrow>
     \<exists>vcs. vc = vc0 @ vcs \<and>
       (\<forall>vc1. setSchedData_loop bi wid vs (vc1, ld0) = Inr (vc1 @ vcs, ld)) \<and>
       (\<forall>vc1. setSchedData_loop bi wid vs (vc1, ld) = Inr (vc1 @ vcs, ld))"
proof (induction vs arbitrary: vc0 ld0)
  case Nil
  then show ?case by simp
next
  case (Cons v vs)
  from Cons.prems obtain vm i where vm: "py_int bi (LineData_getattr v ''vm'') = Inr vm"
    and wid: "wid = Some i"
    by (auto split: sum.splits option.splits)
  show ?case
  proof (cases "vm = i")
    case False
    with Cons.prems vm wid have "setSchedData_loop bi wid vs (vc0, ld0) = Inr (vc, ld)"
      by simp
    from Cons.IH[OF this] False vm wid show ?thesis by simp
  next
    case True
    with Cons.prems vm wid obtain vcpu where
      vcpu: "py_int bi (LineData_getattr v ''vcpu'') = Inr vcpu"
      by (auto split: sum.splits)
    let ?ld = "if vm = vcpu then Some v else ld0"
    from Cons.prems vm wid True vcpu
    have "setSchedData_loop bi wid vs (vc0 @ [v], ?ld) = Inr (vc, ld)" by simp
    from Cons.IH[OF this] obtain vcs where
      a: "vc = (vc0 @ [v]) @ vcs"
      and b: "\<forall>vc1. setSchedData_loop bi wid vs (vc1, ?ld) = Inr (vc1 @ vcs, ld)"
      and c: "\<forall>vc1. setSchedData_loop bi wid vs (vc1, ld) = Inr (vc1 @ vcs, ld)"
      by blast
    show ?thesis
      using a b c vm wid True vcpu by (intro exI[of _ "v # vcs"]) auto
  qed
qed

lemma setSchedData_idem:
  assumes "setSchedData bi sd w = Inr w'"
  shows "setSchedData bi sd w' = Inr w'"
proof -
  from assms obtain vc ld where
    l: "setSchedData_loop bi (vmid w) (vcpu_list sd) ([], leader w) = Inr (vc, ld)"
    and ld: "ld \<noteq> None"
    and w': "w' = w\<lparr> schedData := Some sd, vcpus := vc, leader := ld \<rparr>"
    by (auto simp: setSchedData_def split: sum.splits if_splits)
  from setSchedData_loop_acc[OF l]
  have "setSchedData_loop bi (vmid w) (vcpu_list sd) ([], ld) = Inr (vc, ld)"
    by auto
  then show ?thesis using ld w' by (simp add: setSchedData_def)
qed

lemma setSchedData_fields:
  assumes "setSchedData bi sd w = Inr w'"
  shows "shares w' = shares w" "cls w' = cls w" "numvcpus w' = numvcpus w"
        "run w' = run w" "wait w' = wait w" "vmid w' = vmid w"
  using assms by (auto simp: setSchedData_def split: sum.splits if_splits)

lemma shortFormat_setSchedData:
  assumes "setSchedData bi sd w = Inr w'"
  shows "shortFormat w' = shortFormat w"
  using setSchedData_fields[OF assms]
  by (simp add: shortFormat_def TestWorld_shortFormat_def split: world_class.splits)

subsection \<open>The loops of the fairness test\<close>

lemma fairness_totals_char:
  assumes "\<forall>r \<in> set rs. setSchedData bi sd (h0 r) = Inr (W r) \<and> getUsedSec bi (W r) = Inr (used r)"
      and "\<forall>r \<in> set rs. h r = h0 r \<or> h r = W r"
  shows "fairness_totals bi sd rs (h, ts, tu) =
           Inr (\<lambda>r. if r \<in> set rs then W r else h r,
                ts + (\<Sum>r\<leftarrow>rs. shares (h0 r)), tu + (\<Sum>r\<leftarrow>rs. used r))"
  using assms
proof (induction rs arbitrary: h ts tu)
  case Nil
  then show ?case by simp
next
  case (Cons r rs)
  have s: "setSchedData bi sd (h r) = Inr (W r)"
    using Cons.prems setSchedData_idem[of bi sd "h0 r" "W r"] by auto
  have u: "getUsedSec bi (W r) = Inr (used r)" using Cons.prems by simp
  have sh: "shares (W r) = shares (h0 r)"
    using Cons.prems setSchedData_fields(1)[of bi sd "h0 r" "W r"] by simp
  have inv: "\<forall>r' \<in> set rs. (h(r := W r)) r' = h0 r' \<or> (h(r := W r)) r' = W r'"
    using Cons.prems by auto
  have hyp: "\<forall>r \<in> set rs. setSchedData bi sd (h0 r) = Inr (W r) \<and> getUsedSec bi (W r) = Inr (used r)"
    using Cons.prems by simp
  have heap: "(\<lambda>r'. if r' \<in> set rs then W r' else (h(r := W r)) r') =
              (\<lambda>r'. if r' \<in> set (r # rs) then W r' else h r')"
    by auto
  have step: "fairness_totals bi sd (r # rs) (h, ts, tu) =
              fairness_totals bi sd rs (h(r := W r), ts + shares (h0 r), tu + used r)"
    using s u sh by simp
  note ih = Cons.IH[OF hyp inv, of "ts + shares (h0 r)" "tu + used r"]
  show ?case
    unfolding step ih heap by (simp add: add.assoc)
qed

lemma fairness_loop_char:
  assumes "\<forall>i \<in> set is. i < length (vms t)"
      and "\<forall>r \<in> set (vms t). 0 < shares (h r) \<and> getUsedSec bi (h r) = Inr (used r) \<and>
                               fairness_key h (vms t) r = Inr (key r)"
  shows "fairness_loop bi t sd h S U is (rm, es) =
           Inr (fold (\<lambda>r m. m(key r \<mapsto> fair_ratio (used r) U (shares (h r)) S))
                     (map (\<lambda>i. vms t ! i) is) rm,
                es @ map (\<lambda>r. FairnessError ''unfairness limit exceeded'' r
                                 (fair_ratio (used r) U (shares (h r)) S) sd)
                         (filter (\<lambda>r. \<bar>fair_ratio (used r) U (shares (h r)) S - 1\<bar> > maxUnfairness t)
                                 (map (\<lambda>i. vms t ! i) is)))"
  using assms(1)
proof (induction "is" arbitrary: rm es)
  case Nil
  then show ?case by simp
next
  case (Cons i "is")
  let ?r = "vms t ! i"
  let ?f = "fair_ratio (used ?r) U (shares (h ?r)) S"
  let ?es = "if \<bar>?f - 1\<bar> > maxUnfairness t
             then es @ [FairnessError ''unfairness limit exceeded'' ?r ?f sd] else es"
  have r: "?r \<in> set (vms t)" using Cons.prems by simp
  with assms(2) have f: "0 < shares (h ?r)" "getUsedSec bi (h ?r) = Inr (used ?r)"
    "fairness_key h (vms t) ?r = Inr (key ?r)" by auto
  have rest: "\<forall>i \<in> set is. i < length (vms t)" using Cons.prems by simp
  have step: "fairness_loop bi t sd h S U (i # is) (rm, es) =
              fairness_loop bi t sd h S U is (rm(key ?r \<mapsto> ?f), ?es)"
    using f by (simp add: Let_def fair_ratio_def del: fun_upd_apply)
  show ?case
    unfolding step Cons.IH[OF rest] by (simp del: fun_upd_apply)
qed

subsection \<open>Result maps and their keys\<close>

lemma fold_upd_other:
  "k \<notin> key ` set rs \<Longrightarrow> fold (\<lambda>r m. m(key r \<mapsto> val r)) rs m0 k = m0 k"
  by (induction rs arbitrary: m0) auto

lemma fold_upd_lookup:
  "inj_on key (set rs) \<Longrightarrow> r \<in> set rs \<Longrightarrow>
   fold (\<lambda>r m. m(key r \<mapsto> val r)) rs m0 (key r) = Some (val r)"
proof (induction rs arbitrary: m0)
  case Nil
  then show ?case by simp
next
  case (Cons x xs)
  show ?case
  proof (cases "r \<in> set xs")
    case True
    with Cons show ?thesis by simp
  next
    case False
    with Cons.prems have rx: "r = x" by simp
    have "key x \<notin> key ` set xs"
    proof
      assume "key x \<in> key ` set xs"
      then obtain y where y: "y \<in> set xs" "key y = key x" by auto
      have "y \<in> set (x # xs)" "x \<in> set (x # xs)" using y by simp_all
      with Cons.prems(1) y(2) have "y = x" by (meson inj_onD)
      with y False rx show False by simp
    qed
    then have "fold (\<lambda>r m. m(key r \<mapsto> val r)) xs (m0(key x \<mapsto> val x)) (key x) =
               (m0(key x \<mapsto> val x)) (key x)"
      by (rule fold_upd_other)
    then show ?thesis unfolding rx by (simp del: fun_upd_apply) simp
  qed
qed

lemma list_index_found:
  "r \<in> set rs \<Longrightarrow> \<exists>k. list_index rs r = Inr k \<and> k < length rs \<and> rs ! k = r"
  by (induction rs) auto

lemma dec_nat_snoc: "dec_nat (xs @ [c]) = 10 * dec_nat xs + digit_val c"
  by (simp add: dec_nat_def)

lemma digit_val_digit_char: "d < 10 \<Longrightarrow> digit_val (digit_char d) = d"
  by (drule lt10_cases) (auto simp: digit_val_def digit_char_def)

lemma dec_nat_digits: "dec_nat (digits n) = n"
proof (induction n rule: digits.induct)
  case (1 n)
  show ?case
  proof (cases "n < 10")
    case True
    then show ?thesis
      by (subst digits.simps) (simp add: dec_nat_def digit_val_digit_char)
  next
    case False
    with 1 show ?thesis
      by (subst digits.simps) (simp add: dec_nat_snoc digit_val_digit_char)
  qed
qed

lemma digits_inj:
  assumes "digits a = digits b"
  shows "a = b"
proof -
  have "a = dec_nat (digits a)" by (simp only: dec_nat_digits)
  also have "\<dots> = dec_nat (digits b)" by (simp only: assms)
  also have "\<dots> = b" by (simp only: dec_nat_digits)
  finally show ?thesis .
qed

lemma hash_not_in_digits: "CHR ''#'' \<notin> set (digits n)"
proof
  assume "CHR ''#'' \<in> set (digits n)"
  with digits_all_isdigit[of n] have "isdigit (CHR ''#'')" by (simp add: list_all_iff)
  then show False by (simp add: isdigit_def)
qed

lemma suffix_after_hash:
  assumes "x @ ''#'' @ a = y @ ''#'' @ b" "CHR ''#'' \<notin> set a" "CHR ''#'' \<notin> set b"
  shows "a = b"
proof -
  have t: "takeWhile (\<lambda>c. c \<noteq> CHR ''#'') (rev (z @ ''#'' @ c)) = rev c"
    if "CHR ''#'' \<notin> set c" for z c
  proof -
    have "takeWhile (\<lambda>c. c \<noteq> CHR ''#'') (rev c @ (CHR ''#'' # rev z)) =
          rev c @ takeWhile (\<lambda>c. c \<noteq> CHR ''#'') (CHR ''#'' # rev z)"
      by (rule takeWhile_append2) (use that in auto)
    then show ?thesis by simp
  qed
  from assms(1) have "rev (x @ ''#'' @ a) = rev (y @ ''#'' @ b)" by simp
  then have "takeWhile (\<lambda>c. c \<noteq> CHR ''#'') (rev (x @ ''#'' @ a)) =
             takeWhile (\<lambda>c. c \<noteq> CHR ''#'') (rev (y @ ''#'' @ b))" by simp
  then show ?thesis using t[OF assms(2)] t[OF assms(3)] by simp
qed

lemma fairness_key_inj:
  assumes "r \<in> set rs" "r' \<in> set rs"
      and "fairness_key h rs r = Inr k" "fairness_key h rs r' = Inr k"
  shows "r = r'"
proof -
  from list_index_found[OF assms(1)] obtain i where
    i: "list_index rs r = Inr i" "rs ! i = r" by blast
  from list_index_found[OF assms(2)] obtain j where
    j: "list_index rs r' = Inr j" "rs ! j = r'" by blast
  from assms(3,4) i j have
    "shortFormat (h r) @ ''#'' @ digits i = shortFormat (h r') @ ''#'' @ digits j"
    by (simp add: fairness_key_def str_int_def)
  then have "digits i = digits j"
    by (rule suffix_after_hash) (simp_all add: hash_not_in_digits)
  then have "i = j" by (rule digits_inj)
  with i j show ?thesis by simp
qed

subsection \<open>The result of the fairness test\<close>

lemma sum_list_pos_nonempty:
  fixes f :: "'a \<Rightarrow> int"
  shows "xs \<noteq> [] \<Longrightarrow> \<forall>x \<in> set xs. 0 < f x \<Longrightarrow> 0 < (\<Sum>x\<leftarrow>xs. f x)"
proof (induction xs)
  case Nil
  then show ?case by simp
next
  case (Cons a xs)
  show ?case
  proof (cases "xs = []")
    case True
    with Cons.prems show ?thesis by simp
  next
    case False
    with Cons have "0 < (\<Sum>x\<leftarrow>xs. f x)" by simp
    moreover have "0 < f a" using Cons.prems by simp
    ultimately show ?thesis by simp
  qed
qed

lemma fairness_key_setSchedData:
  assumes "setSchedData bi sd (h r) = Inr (h' r)"
  shows "fairness_key h' rs r = fairness_key h rs r"
  using shortFormat_setSchedData[OF assms] by (simp add: fairness_key_def split: sum.splits)

lemma FairnessTest_results_char:
  assumes ld: "load_data file True = Inr sd"
      and rd: "\<forall>r \<in> set (vms t). setSchedData bi sd (h r) = Inr (W r) \<and>
                                  getUsedSec bi (W r) = Inr (used r)"
      and sh: "\<forall>r \<in> set (vms t). 0 < shares (h r)"
      and U: "U = (\<Sum>r\<leftarrow>vms t. used r)" and S: "S = (\<Sum>r\<leftarrow>vms t. shares (h r))"
      and tu: "0 < U"
  shows "\<exists>resmap. FairnessTest_results bi t file h =
           Inr (resmap,
                map (\<lambda>r. FairnessError ''unfairness limit exceeded'' r
                            (fair_ratio (used r) U (shares (h r)) S) sd)
                    (filter (\<lambda>r. \<bar>fair_ratio (used r) U (shares (h r)) S - 1\<bar> > maxUnfairness t)
                            (vms t)),
                (\<lambda>r. if r \<in> set (vms t) then W r else h r)) \<and>
           (\<forall>r \<in> set (vms t). \<exists>k. fairness_key h (vms t) r = Inr k \<and>
                                   resmap k = Some (fair_ratio (used r) U (shares (h r)) S))"
proof -
  let ?h' = "\<lambda>r. if r \<in> set (vms t) then W r else h r"
  let ?ratio = "\<lambda>r. fair_ratio (used r) U (shares (h r)) S"
  define key where "key = (\<lambda>r. projr (fairness_key h (vms t) r))"
  have tot: "fairness_totals bi sd (vms t) (h, 0, 0) = Inr (?h', S, U)"
    using fairness_totals_char[of "vms t" bi sd h W used h 0 0] rd by (simp add: U S)
  have ne: "vms t \<noteq> []" using tu U by auto
  have Spos: "0 < S" unfolding S using ne sh by (rule sum_list_pos_nonempty)
  have keyh: "fairness_key h (vms t) r = Inr (key r)" if "r \<in> set (vms t)" for r
    using list_index_found[OF that] by (auto simp: key_def fairness_key_def)
  have shW: "shares (W r) = shares (h r)" if "r \<in> set (vms t)" for r
    using rd that setSchedData_fields(1)[of bi sd "h r" "W r"] by simp
  have keyW: "fairness_key ?h' (vms t) r = Inr (key r)" if "r \<in> set (vms t)" for r
  proof -
    have "setSchedData bi sd (h r) = Inr (?h' r)" using rd that by simp
    from fairness_key_setSchedData[of bi sd h r ?h', OF this] keyh[OF that]
    show ?thesis by simp
  qed
  have pre: "\<forall>r \<in> set (vms t). 0 < shares (?h' r) \<and> getUsedSec bi (?h' r) = Inr (used r) \<and>
                               fairness_key ?h' (vms t) r = Inr (key r)"
    using rd sh shW keyW by simp
  have idx: "\<forall>i \<in> set [0 ..< length (vms t)]. i < length (vms t)" by simp
  have mapnth: "map (\<lambda>i. vms t ! i) [0 ..< length (vms t)] = vms t" by (rule map_nth)
  have eqr: "fair_ratio (used r) U (shares (?h' r)) S = ?ratio r" if "r \<in> set (vms t)" for r
    using shW[OF that] that by simp
  let ?rm = "fold (\<lambda>r m. m(key r \<mapsto> fair_ratio (used r) U (shares (?h' r)) S)) (vms t) Map.empty"
  have loop: "fairness_loop bi t sd ?h' S U [0 ..< length (vms t)] (Map.empty, []) =
        Inr (?rm,
             map (\<lambda>r. FairnessError ''unfairness limit exceeded'' r
                         (fair_ratio (used r) U (shares (?h' r)) S) sd)
                 (filter (\<lambda>r. \<bar>fair_ratio (used r) U (shares (?h' r)) S - 1\<bar> > maxUnfairness t)
                         (vms t)))"
    using fairness_loop_char[OF idx pre, of sd S U Map.empty "[]"] unfolding mapnth by simp
  have errs: "map (\<lambda>r. FairnessError ''unfairness limit exceeded'' r
                         (fair_ratio (used r) U (shares (?h' r)) S) sd)
                 (filter (\<lambda>r. \<bar>fair_ratio (used r) U (shares (?h' r)) S - 1\<bar> > maxUnfairness t)
                         (vms t)) =
              map (\<lambda>r. FairnessError ''unfairness limit exceeded'' r (?ratio r) sd)
                 (filter (\<lambda>r. \<bar>?ratio r - 1\<bar> > maxUnfairness t) (vms t))"
  proof -
    have f: "filter (\<lambda>r. \<bar>fair_ratio (used r) U (shares (?h' r)) S - 1\<bar> > maxUnfairness t) (vms t)
           = filter (\<lambda>r. \<bar>?ratio r - 1\<bar> > maxUnfairness t) (vms t)"
      by (rule filter_cong) (simp_all add: shW)
    show ?thesis unfolding f by (rule map_cong) (simp_all add: shW)
  qed
  have inj: "inj_on key (set (vms t))"
  proof (rule inj_onI)
    fix r r' assume a: "r \<in> set (vms t)" "r' \<in> set (vms t)" "key r = key r'"
    show "r = r'"
      using fairness_key_inj[OF a(1,2) keyh[OF a(1)]] keyh[OF a(2)] a(3) by simp
  qed
  have look: "?rm (key r) = Some (?ratio r)" if "r \<in> set (vms t)" for r
    using fold_upd_lookup[OF inj that, of "\<lambda>r. fair_ratio (used r) U (shares (?h' r)) S" Map.empty]
          eqr[OF that] by simp
  have res: "FairnessTest_results bi t file h =
        Inr (?rm, map (\<lambda>r. FairnessError ''unfairness limit exceeded'' r (?ratio r) sd)
                 (filter (\<lambda>r. \<bar>?ratio r - 1\<bar> > maxUnfairness t) (vms t)), ?h')"
    unfolding FairnessTest_results_def ld using tot tu Spos loop errs by simp
  show ?thesis
    using res look keyh by (intro exI[of _ ?rm]) auto
qed


lemma load_sched_ok: "load_data (Some dump_ok) True = Inr sched_ok"
  by (simp add: sched_ok_def dump_ok_loaded)

lemma vcpu_list_sched_ok:
  "vcpu_list sched_ok =
     [\<lparr>data = [''vcpu'' \<mapsto> ''100'', ''vm'' \<mapsto> ''100'', ''name'' \<mapsto> ''idle0'', ''usedsec'' \<mapsto> ''1.5'']\<rparr>,
      \<lparr>data = [''vcpu'' \<mapsto> ''101'', ''vm'' \<mapsto> ''101'', ''name'' \<mapsto> ''basic'', ''usedsec'' \<mapsto> ''6.0'']\<rparr>,
      \<lparr>data = [''vcpu'' \<mapsto> ''102'', ''vm'' \<mapsto> ''101'', ''name'' \<mapsto> ''basic'', ''usedsec'' \<mapsto> ''4.5'']\<rparr>]"
  by (simp add: sched_ok_def dump_ok_loaded)

lemmas heap0_eval = heap0_def BasicWorld_init_def TestWorld_init_def world_default_def

lemma vms_fairness_test0: "vms fairness_test0 = [0, 1]"
  by (simp add: fairness_test0_def FairnessTest_init_def BasicTest_init_def list_times_def
        BasicTest.extend_def BasicTest.defs)


lemma heap0_used:
  "\<exists>w. setSchedData dec_builtins sched_ok (heap0 0) = Inr w \<and> getUsedSec dec_builtins w = Inr (3 / 2)"
  "\<exists>w. setSchedData dec_builtins sched_ok (heap0 1) = Inr w \<and> getUsedSec dec_builtins w = Inr (21 / 2)"
  by (simp_all add: setSchedData_def vcpu_list_sched_ok heap0_eval dec_eval' getUsedSec_def
        getVcpuVal_float_def column_def)


lemma fairness_keys0:
  "fairness_key heap0 [0, 1] 0 = Inr ''basic-01000-1-10r-00w#0''"
  "fairness_key heap0 [0, 1] 1 = Inr ''basic-06000-2-10r-00w#1''"
  by (simp_all add: fairness_key_def heap0_eval shortFormat_def TestWorld_shortFormat_def
        format_0d_def str_int_def digits.simps digit_char_def)

lemma setSchedData_shares:
  assumes "setSchedData bi sd w = Inr w'"
  shows "setSchedData bi sd (w\<lparr> shares := s \<rparr>) = Inr (w'\<lparr> shares := s \<rparr>)"
  using assms by (auto simp: setSchedData_def split: sum.splits if_splits)

lemma getUsedSec_shares: "getUsedSec bi (w\<lparr> shares := s \<rparr>) = getUsedSec bi w"
  by (simp add: getUsedSec_def getVcpuVal_float_def)

lemma of_int_sum_list_map:
  "rat_of_int (\<Sum>x\<leftarrow>xs. f x) = (\<Sum>x\<leftarrow>xs. rat_of_int (f x))"
  by (induction xs) simp_all

lemma fair_ratio_scale:
  assumes "0 < c" "rat_of_int s2 = c * rat_of_int s" "rat_of_int S2 = c * rat_of_int S"
  shows "fair_ratio u U s2 S2 = fair_ratio u U s S"
  using assms by (simp add: fair_ratio_def)

lemma fairness_keys0_scaled:
  "fairness_key (with_shares (\<lambda>r. 2 * shares (heap0 r)) heap0) [0, 1] 0 = Inr ''basic-02000-1-10r-00w#0''"
  "fairness_key (with_shares (\<lambda>r. 2 * shares (heap0 r)) heap0) [0, 1] 1 = Inr ''basic-12000-2-10r-00w#1''"
  by (simp_all add: fairness_key_def with_shares_def heap0_eval shortFormat_def
        TestWorld_shortFormat_def format_0d_def str_int_def digits.simps digit_char_def)

subsection \<open>C1: the fairness ratio and its errors\<close>



subsection \<open>C5: scaling the shares\<close>

text \<open>
  C5. Under the preconditions of C1, let every world's shares be multiplied by the same positive
  constant \<open>c\<close> (the new shares \<open>s2 r\<close> being integers again). Then \<open>results\<close> returns for
  both heaps, every world has the same ratio in both result maps, each under its own key (the
  key shows the shares), and the two error lists name the same worlds with the same ratios.
\<close>

theorem fairness_scale_invariant:
  assumes ld: "load_data file True = Inr sd"
      and rd: "\<forall>r \<in> set (vms t). setSchedData bi sd (h r) = Inr (W r) \<and>
                                  getUsedSec bi (W r) = Inr (used r)"
      and sh: "\<forall>r \<in> set (vms t). 0 < shares (h r)"
      and tu: "0 < (\<Sum>r\<leftarrow>vms t. used r)"
      and c: "0 < c"
      and s2: "\<forall>r \<in> set (vms t). rat_of_int (s2 r) = c * rat_of_int (shares (h r))"
  shows "\<exists>rm es h' rm2 es2 h2'.
           FairnessTest_results bi t file h = Inr (rm, es, h') \<and>
           FairnessTest_results bi t file (with_shares s2 h) = Inr (rm2, es2, h2') \<and>
           map fairness es2 = map fairness es \<and> map vm es2 = map vm es \<and>
           (\<forall>r \<in> set (vms t). \<exists>k k2 x.
               fairness_key h (vms t) r = Inr k \<and>
               fairness_key (with_shares s2 h) (vms t) r = Inr k2 \<and>
               rm k = Some x \<and> rm2 k2 = Some x)"
proof -
  let ?U = "\<Sum>r\<leftarrow>vms t. used r"
  let ?S = "\<Sum>r\<leftarrow>vms t. shares (h r)"
  let ?S2 = "\<Sum>r\<leftarrow>vms t. shares (with_shares s2 h r)"
  let ?ratio = "\<lambda>r. fair_ratio (used r) ?U (shares (h r)) ?S"
  let ?ratio2 = "\<lambda>r. fair_ratio (used r) ?U (shares (with_shares s2 h r)) ?S2"
  have rd2: "\<forall>r \<in> set (vms t).
               setSchedData bi sd (with_shares s2 h r) = Inr ((W r)\<lparr> shares := s2 r \<rparr>) \<and>
               getUsedSec bi ((W r)\<lparr> shares := s2 r \<rparr>) = Inr (used r)"
    using rd by (simp add: with_shares_def setSchedData_shares getUsedSec_shares)
  have pos: "0 < s2 r" if "r \<in> set (vms t)" for r
  proof -
    have "0 < c * rat_of_int (shares (h r))" using c sh that by simp
    with s2 that have "0 < rat_of_int (s2 r)" by simp
    then show ?thesis by simp
  qed
  then have sh2: "\<forall>r \<in> set (vms t). 0 < shares (with_shares s2 h r)"
    by (simp add: with_shares_def)
  have S2: "rat_of_int ?S2 = c * rat_of_int ?S"
  proof -
    have "rat_of_int ?S2 = (\<Sum>r\<leftarrow>vms t. rat_of_int (s2 r))"
      by (simp add: of_int_sum_list_map with_shares_def)
    also have "\<dots> = (\<Sum>r\<leftarrow>vms t. c * rat_of_int (shares (h r)))"
      using s2 by (intro arg_cong[where f = sum_list] map_cong) simp_all
    also have "\<dots> = c * rat_of_int ?S"
      by (simp add: sum_list_const_mult of_int_sum_list_map)
    finally show ?thesis .
  qed
  have eq: "?ratio2 r = ?ratio r" if "r \<in> set (vms t)" for r
    using that s2 by (intro fair_ratio_scale[OF c _ S2]) (simp add: with_shares_def)
  from FairnessTest_results_char[OF ld rd sh refl refl tu] obtain rm where
    res: "FairnessTest_results bi t file h =
            Inr (rm, map (\<lambda>r. FairnessError ''unfairness limit exceeded'' r (?ratio r) sd)
                         (filter (\<lambda>r. \<bar>?ratio r - 1\<bar> > maxUnfairness t) (vms t)),
                 (\<lambda>r. if r \<in> set (vms t) then W r else h r))"
    and look: "\<forall>r \<in> set (vms t). \<exists>k. fairness_key h (vms t) r = Inr k \<and> rm k = Some (?ratio r)"
    by blast
  from FairnessTest_results_char[OF ld rd2 sh2 refl refl tu] obtain rm2 where
    res2: "FairnessTest_results bi t file (with_shares s2 h) =
            Inr (rm2, map (\<lambda>r. FairnessError ''unfairness limit exceeded'' r (?ratio2 r) sd)
                         (filter (\<lambda>r. \<bar>?ratio2 r - 1\<bar> > maxUnfairness t) (vms t)),
                 (\<lambda>r. if r \<in> set (vms t) then (W r)\<lparr> shares := s2 r \<rparr> else with_shares s2 h r))"
    and look2: "\<forall>r \<in> set (vms t). \<exists>k. fairness_key (with_shares s2 h) (vms t) r = Inr k \<and>
                  rm2 k = Some (?ratio2 r)"
    by blast
  have filt: "filter (\<lambda>r. \<bar>?ratio2 r - 1\<bar> > maxUnfairness t) (vms t) =
              filter (\<lambda>r. \<bar>?ratio r - 1\<bar> > maxUnfairness t) (vms t)"
    by (rule filter_cong) (simp_all add: eq)
  have fair: "map fairness (map (\<lambda>r. FairnessError ''unfairness limit exceeded'' r (?ratio2 r) sd)
                (filter (\<lambda>r. \<bar>?ratio2 r - 1\<bar> > maxUnfairness t) (vms t))) =
              map fairness (map (\<lambda>r. FairnessError ''unfairness limit exceeded'' r (?ratio r) sd)
                (filter (\<lambda>r. \<bar>?ratio r - 1\<bar> > maxUnfairness t) (vms t)))"
    unfolding filt by (simp add: eq)
  have vmeq: "map vm (map (\<lambda>r. FairnessError ''unfairness limit exceeded'' r (?ratio2 r) sd)
                (filter (\<lambda>r. \<bar>?ratio2 r - 1\<bar> > maxUnfairness t) (vms t))) =
              map vm (map (\<lambda>r. FairnessError ''unfairness limit exceeded'' r (?ratio r) sd)
                (filter (\<lambda>r. \<bar>?ratio r - 1\<bar> > maxUnfairness t) (vms t)))"
    unfolding filt by simp
  have both: "\<exists>k k2 x. fairness_key h (vms t) r = Inr k \<and>
               fairness_key (with_shares s2 h) (vms t) r = Inr k2 \<and>
               rm k = Some x \<and> rm2 k2 = Some x" if "r \<in> set (vms t)" for r
    using look look2 eq that by fastforce
  show ?thesis
    using res res2 fair vmeq both by blast
qed

theorem fairness_scale_invariant_witness:
  "\<exists>rm es h' rm2 es2 h2'.
     FairnessTest_results dec_builtins fairness_test0 (Some dump_ok) heap0 = Inr (rm, es, h') \<and>
     FairnessTest_results dec_builtins fairness_test0 (Some dump_ok)
        (with_shares (\<lambda>r. 2 * shares (heap0 r)) heap0) = Inr (rm2, es2, h2') \<and>
     map fairness es2 = map fairness es \<and>
     rm2 ''basic-02000-1-10r-00w#0'' = rm ''basic-01000-1-10r-00w#0'' \<and>
     rm2 ''basic-12000-2-10r-00w#1'' = rm ''basic-06000-2-10r-00w#1''"
proof -
  define W where "W = (\<lambda>r. projr (setSchedData dec_builtins sched_ok (heap0 r)))"
  define used :: "nat \<Rightarrow> rat" where "used = (\<lambda>r. if r = 0 then 3 / 2 else 21 / 2)"
  have rd: "\<forall>r \<in> set (vms fairness_test0).
              setSchedData dec_builtins sched_ok (heap0 r) = Inr (W r) \<and>
              getUsedSec dec_builtins (W r) = Inr (used r)"
    using heap0_used by (auto simp: vms_fairness_test0 W_def used_def)
  have tu: "0 < (\<Sum>r\<leftarrow>vms fairness_test0. used r)"
    by (simp add: vms_fairness_test0 used_def)
  have sh: "\<forall>r \<in> set (vms fairness_test0). 0 < shares (heap0 r)"
    by (simp add: vms_fairness_test0 heap0_eval)
  have c: "(0::rat) < 2" by simp
  have s2: "\<forall>r \<in> set (vms fairness_test0).
              rat_of_int (2 * shares (heap0 r)) = 2 * rat_of_int (shares (heap0 r))"
    by simp
  from fairness_scale_invariant[OF load_sched_ok rd sh tu c s2]
  obtain rm es h' rm2 es2 h2' where
    a: "FairnessTest_results dec_builtins fairness_test0 (Some dump_ok) heap0 = Inr (rm, es, h')"
    and b: "FairnessTest_results dec_builtins fairness_test0 (Some dump_ok)
              (with_shares (\<lambda>r. 2 * shares (heap0 r)) heap0) = Inr (rm2, es2, h2')"
    and f: "map fairness es2 = map fairness es"
    and k: "\<forall>r \<in> set (vms fairness_test0). \<exists>k k2 x.
               fairness_key heap0 (vms fairness_test0) r = Inr k \<and>
               fairness_key (with_shares (\<lambda>r. 2 * shares (heap0 r)) heap0) (vms fairness_test0) r = Inr k2 \<and>
               rm k = Some x \<and> rm2 k2 = Some x"
    by blast
  from k have "rm2 ''basic-02000-1-10r-00w#0'' = rm ''basic-01000-1-10r-00w#0''"
    and "rm2 ''basic-12000-2-10r-00w#1'' = rm ''basic-06000-2-10r-00w#1''"
    using fairness_keys0 fairness_keys0_scaled by (auto simp: vms_fairness_test0)
  with a b f show ?thesis by blast
qed

subsection \<open>The loop of the min/max test\<close>









lemma minmax_errors_kinds:
  "\<forall>e \<in> set (minmax_errors t sd a b up u). is_below_min e \<or> is_exceeded_max e"
  by (auto simp: minmax_errors_def Let_def is_below_min_def is_exceeded_max_def)









subsection \<open>C4: the errors and metrics of the min/max test\<close>



subsection \<open>C9: a stuck world in the affinity torture test\<close>

lemma load_dump_stuck:
  "load_data (Some dump_stuck) True =
     Inr \<lparr> vcpu_list =
             [\<lparr>data = [''vcpu'' \<mapsto> ''100'', ''vm'' \<mapsto> ''100'', ''name'' \<mapsto> ''basic'', ''usedsec'' \<mapsto> ''0.0'', ''cpu'' \<mapsto> ''0'']\<rparr>,
              \<lparr>data = [''vcpu'' \<mapsto> ''101'', ''vm'' \<mapsto> ''101'', ''name'' \<mapsto> ''basic'', ''usedsec'' \<mapsto> ''0.0'', ''cpu'' \<mapsto> ''0'']\<rparr>,
              \<lparr>data = [''vcpu'' \<mapsto> ''102'', ''vm'' \<mapsto> ''101'', ''name'' \<mapsto> ''basic'', ''usedsec'' \<mapsto> ''4.5'', ''cpu'' \<mapsto> ''1'']\<rparr>],
           pcpu_list =
             [\<lparr>data = [''pcpu'' \<mapsto> ''0'', ''yield'' \<mapsto> ''17'']\<rparr>,
              \<lparr>data = [''pcpu'' \<mapsto> ''1'', ''yield'' \<mapsto> ''4'']\<rparr>],
           vcpulines = Some (map ln [''100 100 basic 0.0 0'', ''101 101 basic 0.0 0'', ''102 101 basic 4.5 1'']),
           global_data = Some \<lparr>data = [''uptime'' \<mapsto> ''100.0'', ''total'' \<mapsto> ''2'']\<rparr> \<rparr>"
  by (simp add: dump_stuck_def parse_eval)

lemma torture_fields:
  "vms torture_uni = [0]" "numreps torture_uni = 1" "errs torture_uni = []" "ncpus torture_uni = (2, 2)"
  "vms torture_dual = [1]" "numreps torture_dual = 1" "errs torture_dual = []" "ncpus torture_dual = (2, 2)"
  by (simp_all add: torture_uni_def torture_dual_def AffinityTortureTest_init_def BasicTest_init_def
        list_times_def BasicTest.extend_def BasicTest.defs AffinityTortureTest.defs)

text \<open>
  Whenever the inner loop reaches a world whose summed used seconds are below 0.01, it raises:
  the loop, and with it the run, ends there.
\<close>

lemma torture_vms_stuck_raises:
  assumes "setSchedData bi sd (t_heap st r) = Inr v"
      and "checkAffinity bi v = Inr c"
      and "getVcpuVal_float bi v ''usedsec'' = Inr u"
      and "u < 1 / 100"
  shows "torture_vms bi rnd nc sd (r # rs) st = Inl AttributeError"
  using assms by (simp split: prod.splits)

text \<open>
  C9 says that a used-time growth below 0.01 seconds for any vcpu of a world is reported by
  appending a stuck-workload error, after which the run goes on. On the code, a run over a
  single-vcpu world whose vcpu used no time raises \<^verbatim>\<open>AttributeError\<close> and appends nothing; and a
  run over a two-vcpu world with one vcpu that used no time and one that used 4.5 seconds
  returns with an empty error list, since the test compares the sum over the world's vcpus.
\<close>

theorem AffinityTortureTest_run_stuck_raises:
  "AffinityTortureTest_run dec_builtins (\<lambda>k. 0) torture_uni heap0 env_stuck = Inl AttributeError \<and>
   \<not> isl (AffinityTortureTest_run dec_builtins (\<lambda>k. 0) torture_dual heap0 env_stuck) \<and>
   errs (fst (projr (AffinityTortureTest_run dec_builtins (\<lambda>k. 0) torture_dual heap0 env_stuck))) = []"
  by (simp add: AffinityTortureTest_run_def torture_fields env_stuck_def write_file_def
        load_dump_stuck setSchedData_def heap0_eval dec_eval' checkAffinity_def
        getVcpuVal_float_def column_def randAffinity_def configAffinity_def io_defs getVMDir_def
        affinity_string_def Let_def)

end
